theory Spec2Isabelle
  imports Complex_Main
begin

section \<open>Python values\<close>

text \<open>
  The two viewers (\<^verbatim>\<open>GridOmeroOpen.py\<close>, class \<^verbatim>\<open>WholeSlideImageViewer\<close>, and
  \<^verbatim>\<open>MapOmero.py\<close>, class \<^verbatim>\<open>WSITrackingViewer\<close>) compute with Python numbers.
  Python's unbounded \<^verbatim>\<open>int\<close> is \<^typ>\<open>int\<close>. A Python \<^verbatim>\<open>float\<close> is modelled by
  the exact \<^typ>\<open>real\<close> it denotes: the rounding error of IEEE doubles is outside the
  model. Floor division \<^verbatim>\<open>//\<close> on integers is \<open>div\<close> (both round towards minus
  infinity), and every division raises \<^verbatim>\<open>ZeroDivisionError\<close> on a zero divisor.
\<close>

datatype py_error =
    AttributeError
  | IndexError
  | ZeroDivisionError
  | ValueError
  | KeyError
  | OpenSlideError
  | OSError

text \<open>\<^verbatim>\<open>int(x)\<close> on a float truncates towards zero.\<close>

definition py_int :: "real \<Rightarrow> int" where
  "py_int x = (if 0 \<le> x then \<lfloor>x\<rfloor> else \<lceil>x\<rceil>)"

text \<open>
  \<^verbatim>\<open>min(xs, key=f)\<close>: the first element whose key is minimal; the running minimum
  is replaced only by a strictly smaller key. \<^verbatim>\<open>ValueError\<close> on an empty list.
\<close>

fun min_key_scan :: "('a \<Rightarrow> 'b::linorder) \<Rightarrow> 'a \<Rightarrow> 'a list \<Rightarrow> 'a" where
  "min_key_scan key best [] = best"
| "min_key_scan key best (x # xs) =
     (if key x < key best then min_key_scan key x xs else min_key_scan key best xs)"

definition py_min_key :: "('a \<Rightarrow> 'b::linorder) \<Rightarrow> 'a list \<Rightarrow> py_error + 'a" where
  "py_min_key key xs = (case xs of [] \<Rightarrow> Inl ValueError | x # rest \<Rightarrow> Inr (min_key_scan key x rest))"

text \<open>\<^verbatim>\<open>str.lower\<close> on ASCII text and \<^verbatim>\<open>str.endswith\<close> with a tuple of suffixes.\<close>

definition py_lower :: "string \<Rightarrow> string" where
  "py_lower p =
     map (\<lambda>c. if (65::nat) \<le> of_char c \<and> of_char c \<le> (90::nat)
              then char_of (of_char c + (32::nat)) else c) p"

definition endswith :: "string \<Rightarrow> string list \<Rightarrow> bool" where
  "endswith p sfxs =
     list_ex (\<lambda>x. length x \<le> length p \<and> drop (length p - length x) p = x) sfxs"

section \<open>The image sources\<close>

text \<open>
  An open \<^verbatim>\<open>openslide.OpenSlide\<close> object, as far as the viewers read it: the
  dimensions of level 0, the number of levels, and per level its dimensions and its
  downsample factor.
\<close>

record openslide =
  os_dimensions :: "int \<times> int"
  os_level_count :: int
  os_level_dimensions :: "(int \<times> int) list"
  os_level_downsamples :: "real list"

text \<open>
  The decoders are external: what they answer for a path is a parameter of the model.
  \<open>OpenSlide\<close> is \<^verbatim>\<open>openslide.OpenSlide(path)\<close>, \<open>tifffile_imread\<close> is
  \<^verbatim>\<open>Image.fromarray(tifffile.imread(path))\<close> and \<open>Image_open\<close> is
  \<^verbatim>\<open>Image.open(path)\<close>; a decoded flat image is its (width, height).
\<close>

record decoders =
  OPENSLIDE_AVAILABLE :: bool
  OpenSlide :: "string \<Rightarrow> py_error + openslide"
  tifffile_imread :: "string \<Rightarrow> py_error + (int \<times> int)"
  Image_open :: "string \<Rightarrow> py_error + (int \<times> int)"

text \<open>
  What a region read asks of the source and the size it is rescaled to.
  \<open>Slide_read (x, y) level (level_width, level_height) target\<close> is
  \<^verbatim>\<open>slide.read_region((x, y), level, (level_width, level_height))\<close> followed by
  \<^verbatim>\<open>resize(target)\<close>; \<open>Crop_resize (x, y, x2, y2) target\<close> is
  \<^verbatim>\<open>image.crop((x, y, x2, y2))\<close> followed by \<^verbatim>\<open>resize(target)\<close>.
\<close>

datatype region =
    Slide_read "int \<times> int" nat "int \<times> int" "int \<times> int"
  | Crop_resize "int \<times> int \<times> int \<times> int" "int \<times> int"

fun target_size :: "region \<Rightarrow> int \<times> int" where
  "target_size (Slide_read loc level sz target) = target"
| "target_size (Crop_resize box target) = target"

section \<open>State shared by both viewers\<close>

text \<open>
  The fields both classes set in \<^verbatim>\<open>__init__\<close>. \<open>image_pil\<close> is the attribute
  \<^verbatim>\<open>image\<close> (a decoded PIL image, kept as its width and height); \<open>photo\<close> is the
  region last put on the canvas. The size of the canvas widget is read from the toolkit
  at every refresh and is the argument \<open>cv\<close> of the operations.
\<close>

record viewer =
  slide :: "openslide option"
  image_pil :: "(int \<times> int) option"
  use_openslide :: bool
  slide_dimensions :: "int \<times> int"
  level_count :: int
  level_dimensions :: "(int \<times> int) list"
  level_downsamples :: "real list"
  zoom :: real
  offset_x :: real
  offset_y :: real
  photo :: "region option"

text \<open>
  How a handler ends: it returns, an exception leaves it, it shows a message box and
  returns, or it never returns.
\<close>

datatype message =
    Load_an_image_first
  | Out_of_bounds int int
  | Invalid_values
  | Could_not_load py_error
  | Image_loaded

datatype outcome = Done | Raised py_error | Shown message | Diverges

subsection \<open>\<^verbatim>\<open>get_best_level\<close>\<close>

text \<open>
  The loop \<^verbatim>\<open>for level, downsample in enumerate(self.level_downsamples)\<close> with its two
  variables \<^verbatim>\<open>best_level\<close> and \<^verbatim>\<open>min_diff\<close>.
\<close>

fun best_level_scan :: "real \<Rightarrow> real list \<Rightarrow> nat \<Rightarrow> nat \<Rightarrow> real \<Rightarrow> nat" where
  "best_level_scan target_downsample [] level best_level min_diff = best_level"
| "best_level_scan target_downsample (downsample # rest) level best_level min_diff =
     (let diff = \<bar>downsample - target_downsample\<bar> in
      if diff < min_diff
      then best_level_scan target_downsample rest (Suc level) level diff
      else best_level_scan target_downsample rest (Suc level) best_level min_diff)"

definition get_best_level :: "'a viewer_scheme \<Rightarrow> real \<Rightarrow> py_error + nat" where
  "get_best_level s z =
     (if \<not> use_openslide s then Inr 0
      else if z = 0 then Inl ZeroDivisionError
      else (case level_downsamples s of
              [] \<Rightarrow> Inl IndexError
            | d0 # _ \<Rightarrow>
                Inr (best_level_scan (1 / z) (level_downsamples s) 0 0 \<bar>d0 - 1 / z\<bar>)))"

subsection \<open>\<^verbatim>\<open>read_region\<close>\<close>

definition read_region ::
  "'a viewer_scheme \<Rightarrow> real \<Rightarrow> real \<Rightarrow> real \<Rightarrow> real \<Rightarrow> real \<Rightarrow> py_error + region" where
  "read_region s x y width height z =
     (if use_openslide s then
        (case get_best_level s z of
           Inl e \<Rightarrow> Inl e
         | Inr level \<Rightarrow>
             if \<not> level < length (level_downsamples s) then Inl IndexError
             else
               let downsample = level_downsamples s ! level in
               if downsample = 0 then Inl ZeroDivisionError
               else
                 let level_width = py_int (width / downsample);
                     level_height = py_int (height / downsample)
                 in (case slide s of
                       None \<Rightarrow> Inl AttributeError
                     | Some sl \<Rightarrow>
                         Inr (Slide_read (py_int x, py_int y) level (level_width, level_height)
                                (py_int (width * z), py_int (height * z)))))
      else
        (case image_pil s of
           None \<Rightarrow> Inl AttributeError
         | Some (image_width, image_height) \<Rightarrow>
             let x2 = min (x + width) (real_of_int image_width);
                 y2 = min (y + height) (real_of_int image_height)
             in Inr (Crop_resize (py_int x, py_int y, py_int x2, py_int y2)
                       (py_int ((x2 - x) * z), py_int ((y2 - y) * z)))))"

subsection \<open>The clamp at the start of \<^verbatim>\<open>update_view\<close>\<close>

text \<open>
  The first statements of \<^verbatim>\<open>update_view\<close>, the same in both classes, after the guard
  on \<^verbatim>\<open>slide_dimensions[0]\<close>: the view size in image pixels, cut to the image, and
  the offset clamped. The result is the state with the new offset and
  \<^verbatim>\<open>(view_w, view_h)\<close>.
\<close>

definition clamp_view :: "int \<times> int \<Rightarrow> 'a viewer_scheme \<Rightarrow> 'a viewer_scheme \<times> int \<times> int" where
  "clamp_view cv s =
     (let w = max (fst cv) 1;
          h = max (snd cv) 1;
          view_w0 = py_int (real_of_int w / zoom s);
          view_h0 = py_int (real_of_int h / zoom s);
          max_w = fst (slide_dimensions s);
          max_h = snd (slide_dimensions s);
          view_w = min view_w0 max_w;
          view_h = min view_h0 max_h
      in (s\<lparr>offset_x := max 0 (min (offset_x s) (real_of_int (max_w - view_w))),
            offset_y := max 0 (min (offset_y s) (real_of_int (max_h - view_h)))\<rparr>,
          view_w, view_h))"

subsection \<open>Opening a file\<close>

definition wsi_extensions :: "string list" where
  "wsi_extensions =
     [''.ndpi'', ''.svs'', ''.vms'', ''.vmu'', ''.scn'', ''.mrxs'', ''.tif'', ''.tiff'', ''.bif'']"

text \<open>
  The part of \<^verbatim>\<open>load_image\<close> that both classes share, from
  \<^verbatim>\<open>if self.slide: self.slide.close()\<close> to the end of the fallback to PIL. The
  result is the state reached and the exception, if any, that leaves this part for the
  enclosing \<^verbatim>\<open>except Exception\<close>.
\<close>

definition open_source ::
  "decoders \<Rightarrow> string \<Rightarrow> 'a viewer_scheme \<Rightarrow> 'a viewer_scheme \<times> py_error option" where
  "open_source env path s =
     (let s1 = s\<lparr>slide := None, image_pil := None, use_openslide := False\<rparr>;
          tried =
            (if OPENSLIDE_AVAILABLE env \<and> endswith (py_lower path) wsi_extensions then
               (case OpenSlide env path of
                  Inr sl \<Rightarrow>
                    (s1\<lparr>slide := Some sl, use_openslide := True,
                        slide_dimensions := os_dimensions sl,
                        level_count := os_level_count sl,
                        level_dimensions := os_level_dimensions sl,
                        level_downsamples := os_level_downsamples sl\<rparr>, None)
                | Inl e \<Rightarrow>
                    if e = OpenSlideError then (s1\<lparr>use_openslide := False\<rparr>, None)
                    else (s1, Some e))
             else (s1, None))
      in (case tried of
            (s2, Some e) \<Rightarrow> (s2, Some e)
          | (s2, None) \<Rightarrow>
              if \<not> use_openslide s2 then
                (case (if endswith path [''.tif'', ''.tiff''] then tifffile_imread env path
                       else Image_open env path) of
                   Inl e \<Rightarrow> (s2, Some e)
                 | Inr (image_width, image_height) \<Rightarrow>
                     (s2\<lparr>image_pil := Some (image_width, image_height),
                         slide_dimensions := (image_width, image_height)\<rparr>, None))
              else (s2, None)))"

section \<open>\<^verbatim>\<open>WholeSlideImageViewer\<close> (GridOmeroOpen.py)\<close>

text \<open>
  Of the handlers of this class the model has \<^verbatim>\<open>load_image\<close>,
  \<^verbatim>\<open>update_info\<close>, \<^verbatim>\<open>update_view\<close>, \<^verbatim>\<open>set_grid_size\<close>,
  \<^verbatim>\<open>goto_sector\<close>, \<^verbatim>\<open>zoom_in\<close>, \<^verbatim>\<open>zoom_out\<close> and \<^verbatim>\<open>reset\<close>.
  \<^verbatim>\<open>toggle_grid\<close> and \<^verbatim>\<open>pan\<close> change \<^verbatim>\<open>show_grid\<close> and the offset
  and then call \<^verbatim>\<open>update_view\<close>; they are not part of the model. Labels, spin box
  ranges and pixels are not state of the model.
\<close>

record grid_viewer = viewer +
  show_grid :: bool
  grid_size :: int
  max_cols :: int
  max_rows :: int

text \<open>The object that \<^verbatim>\<open>__init__\<close> builds.\<close>

definition WholeSlideImageViewer :: grid_viewer where
  "WholeSlideImageViewer =
     \<lparr>slide = None, image_pil = None, use_openslide = False, slide_dimensions = (0, 0),
      level_count = 0, level_dimensions = [], level_downsamples = [],
      zoom = 1, offset_x = 0, offset_y = 0, photo = None,
      show_grid = True, grid_size = 5000, max_cols = 0, max_rows = 0\<rparr>"

definition update_info_grid :: "grid_viewer \<Rightarrow> grid_viewer \<times> outcome" where
  "update_info_grid s =
     (if fst (slide_dimensions s) = 0 then (s, Done)
      else if grid_size s = 0 then (s, Raised ZeroDivisionError)
      else
        let w = fst (slide_dimensions s);
            h = snd (slide_dimensions s);
            s1 = s\<lparr>max_cols := (w + grid_size s - 1) div grid_size s,
                   max_rows := (h + grid_size s - 1) div grid_size s\<rparr>
        in if use_openslide s1 \<and> slide s1 = None then (s1, Raised AttributeError)
           else (s1, Done))"

text \<open>
  \<^verbatim>\<open>draw_grid\<close> paints on the region and changes no attribute; of it the model
  keeps what can stop \<^verbatim>\<open>update_view\<close>: the modulo by \<^verbatim>\<open>grid_size\<close> and the
  \<^verbatim>\<open>while\<close> loops, which step by \<^verbatim>\<open>cell = grid_size * zoom\<close>. \<open>py_mod\<close> is
  \<^verbatim>\<open>%\<close> with a float operand.
\<close>

definition py_mod :: "real \<Rightarrow> real \<Rightarrow> real" where
  "py_mod a b = a - b * real_of_int \<lfloor>a / b\<rfloor>"

partial_function (option) line_loop :: "real \<Rightarrow> real \<Rightarrow> real \<Rightarrow> unit option" where
  "line_loop x w cell = (if x < w then line_loop (x + cell) w cell else Some ())"

partial_function (option) label_loop :: "real \<Rightarrow> real \<Rightarrow> real \<Rightarrow> real \<Rightarrow> real \<Rightarrow> unit option" where
  "label_loop x_start w y0 h cell =
     (if x_start < w + cell then
        (case line_loop y0 (h + cell) cell of
           None \<Rightarrow> None
         | Some u \<Rightarrow> label_loop (x_start + cell) w y0 h cell)
      else Some ())"

definition draw_grid :: "int \<times> int \<Rightarrow> grid_viewer \<Rightarrow> (py_error + unit) option" where
  "draw_grid cv s =
     (if \<not> show_grid s then Some (Inr ())
      else if grid_size s = 0 then Some (Inl ZeroDivisionError)
      else
        let w = real_of_int (max (fst cv) 1);
            h = real_of_int (max (snd cv) 1);
            cell = real_of_int (grid_size s) * zoom s;
            ox = py_mod (offset_x s) (real_of_int (grid_size s)) * zoom s;
            oy = py_mod (offset_y s) (real_of_int (grid_size s)) * zoom s
        in (case line_loop (- ox) w cell of
              None \<Rightarrow> None
            | Some u \<Rightarrow>
                (case line_loop (- oy) h cell of
                   None \<Rightarrow> None
                 | Some u \<Rightarrow>
                     if 3 / 10 \<le> zoom s then
                       (case label_loop (- ox + cell / 2) w (- oy + cell / 2) h cell of
                          None \<Rightarrow> None
                        | Some u \<Rightarrow> Some (Inr ()))
                     else Some (Inr ()))))"

text \<open>
  \<^verbatim>\<open>update_view\<close>. \<open>finish_view_grid\<close> is what follows the region read: the grid is
  drawn on the region, the region is put on the canvas, and the sector label is computed
  with a floor division by \<^verbatim>\<open>grid_size\<close>.
\<close>

definition finish_view_grid :: "int \<times> int \<Rightarrow> grid_viewer \<Rightarrow> region \<Rightarrow> grid_viewer \<times> outcome" where
  "finish_view_grid cv s1 r =
     (case draw_grid cv s1 of
        None \<Rightarrow> (s1, Diverges)
      | Some (Inl e) \<Rightarrow> (s1, Raised e)
      | Some (Inr u) \<Rightarrow>
          let s2 = s1\<lparr>photo := Some r\<rparr>
          in if grid_size s2 = 0 then (s2, Raised ZeroDivisionError)
             else (s2, Done))"

definition update_view_grid :: "int \<times> int \<Rightarrow> grid_viewer \<Rightarrow> grid_viewer \<times> outcome" where
  "update_view_grid cv s =
     (if fst (slide_dimensions s) = 0 then (s, Done)
      else if zoom s = 0 then (s, Raised ZeroDivisionError)
      else
        (case clamp_view cv s of
           (s1, view_w, view_h) \<Rightarrow>
             (case read_region s1 (offset_x s1) (offset_y s1)
                     (real_of_int view_w) (real_of_int view_h) (zoom s1) of
                Inl e \<Rightarrow> (s1, Raised e)
              | Inr r \<Rightarrow> finish_view_grid cv s1 r)))"

definition reset_grid :: "int \<times> int \<Rightarrow> grid_viewer \<Rightarrow> grid_viewer \<times> outcome" where
  "reset_grid cv s = update_view_grid cv (s\<lparr>zoom := 1, offset_x := 0, offset_y := 0\<rparr>)"

definition set_grid_size :: "int \<times> int \<Rightarrow> int \<Rightarrow> grid_viewer \<Rightarrow> grid_viewer \<times> outcome" where
  "set_grid_size cv new_size s =
     (case update_info_grid (s\<lparr>grid_size := new_size\<rparr>) of
        (s1, Done) \<Rightarrow> update_view_grid cv s1
      | (s1, out) \<Rightarrow> (s1, out))"

text \<open>
  \<^verbatim>\<open>goto_sector\<close>. The two arguments \<open>col_entry\<close> and \<open>row_entry\<close> are
  \<^verbatim>\<open>int(self.spin_col.get())\<close> and \<^verbatim>\<open>int(self.spin_row.get())\<close>: \<open>None\<close> where
  \<^verbatim>\<open>int\<close> raises \<^verbatim>\<open>ValueError\<close> on the text of the spin box. The
  \<^verbatim>\<open>except ValueError\<close> of the handler also covers the refresh.
\<close>

definition goto_sector ::
  "int \<times> int \<Rightarrow> int option \<Rightarrow> int option \<Rightarrow> grid_viewer \<Rightarrow> grid_viewer \<times> outcome" where
  "goto_sector cv col_entry row_entry s =
     (if fst (slide_dimensions s) = 0 then (s, Shown Load_an_image_first)
      else
        (case col_entry of
           None \<Rightarrow> (s, Shown Invalid_values)
         | Some col \<Rightarrow>
             (case row_entry of
                None \<Rightarrow> (s, Shown Invalid_values)
              | Some row \<Rightarrow>
                  if col < 0 \<or> max_cols s \<le> col \<or> row < 0 \<or> max_rows s \<le> row
                  then (s, Shown (Out_of_bounds (max_cols s - 1) (max_rows s - 1)))
                  else
                    let cx = real_of_int (col * grid_size s) + real_of_int (grid_size s) / 2;
                        cy = real_of_int (row * grid_size s) + real_of_int (grid_size s) / 2;
                        w = real_of_int (max (fst cv) 1);
                        h = real_of_int (max (snd cv) 1)
                    in if zoom s = 0 then (s, Raised ZeroDivisionError)
                       else
                         (case update_view_grid cv
                                 (s\<lparr>offset_x := cx - w / zoom s / 2,
                                    offset_y := cy - h / zoom s / 2\<rparr>) of
                            (s1, Raised e) \<Rightarrow>
                              if e = ValueError then (s1, Shown Invalid_values)
                              else (s1, Raised e)
                          | (s1, out) \<Rightarrow> (s1, out)))))"

definition zoom_in_grid :: "int \<times> int \<Rightarrow> grid_viewer \<Rightarrow> grid_viewer \<times> outcome" where
  "zoom_in_grid cv s =
     (if fst (slide_dimensions s) \<noteq> 0 then
        let s1 = s\<lparr>zoom := min (zoom s * (3 / 2)) 10\<rparr>
        in if use_openslide s1 then
             (case get_best_level s1 (zoom s1) of
                Inl e \<Rightarrow> (s1, Raised e)
              | Inr level \<Rightarrow> update_view_grid cv s1)
           else update_view_grid cv s1
      else (s, Done))"

definition zoom_out_grid :: "int \<times> int \<Rightarrow> grid_viewer \<Rightarrow> grid_viewer \<times> outcome" where
  "zoom_out_grid cv s =
     (if fst (slide_dimensions s) \<noteq> 0 then
        let s1 = s\<lparr>zoom := max (zoom s / (3 / 2)) (1 / 20)\<rparr>
        in if use_openslide s1 then
             (case get_best_level s1 (zoom s1) of
                Inl e \<Rightarrow> (s1, Raised e)
              | Inr level \<Rightarrow> update_view_grid cv s1)
           else update_view_grid cv s1
      else (s, Done))"

text \<open>
  \<^verbatim>\<open>load_image\<close>: \<open>path\<close> is the answer of the file dialog, empty when the dialog
  is cancelled. Whatever is raised inside the \<^verbatim>\<open>try\<close> ends in the error box.
\<close>

definition load_image_grid ::
  "decoders \<Rightarrow> int \<times> int \<Rightarrow> string \<Rightarrow> grid_viewer \<Rightarrow> grid_viewer \<times> outcome" where
  "load_image_grid env cv path s =
     (if path = [] then (s, Done)
      else
        (case open_source env path s of
           (s2, Some e) \<Rightarrow> (s2, Shown (Could_not_load e))
         | (s2, None) \<Rightarrow>
             (case update_info_grid s2 of
                (s3, Raised e) \<Rightarrow> (s3, Shown (Could_not_load e))
              | (s3, out3) \<Rightarrow>
                  (case reset_grid cv s3 of
                     (s4, Raised e) \<Rightarrow> (s4, Shown (Could_not_load e))
                   | (s4, Diverges) \<Rightarrow> (s4, Diverges)
                   | (s4, out4) \<Rightarrow> (s4, Shown Image_loaded)))))"

section \<open>\<^verbatim>\<open>WSITrackingViewer\<close> (MapOmero.py)\<close>

subsection \<open>Boolean arrays\<close>

text \<open>
  A two-dimensional numpy array of booleans: its \<^verbatim>\<open>shape\<close> (rows, columns) and its
  rows. \<open>np_zeros\<close> is \<^verbatim>\<open>np.zeros(shape, dtype=bool)\<close>. \<open>py_slice n start stop\<close> is
  the index range that the slice \<^verbatim>\<open>start:stop\<close> selects on an axis of length \<open>n\<close>:
  a negative bound counts from the end, and both bounds are cut to the axis.
  \<open>set_true a (r0, r1) (c0, c1)\<close> is the assignment \<^verbatim>\<open>a[r0:r1, c0:c1] = True\<close>.
\<close>

record np_grid =
  shape :: "int \<times> int"
  cells :: "bool list list"

definition np_zeros :: "int \<times> int \<Rightarrow> py_error + np_grid" where
  "np_zeros sh =
     (if fst sh < 0 \<or> snd sh < 0 then Inl ValueError
      else Inr \<lparr>shape = sh,
                cells = replicate (nat (fst sh)) (replicate (nat (snd sh)) False)\<rparr>)"

definition py_slice_bound :: "int \<Rightarrow> int \<Rightarrow> nat" where
  "py_slice_bound n i =
     (let j = (if i < 0 then i + n else i)
      in if j < 0 then 0 else if n < j then nat n else nat j)"

definition py_slice :: "int \<Rightarrow> int \<Rightarrow> int \<Rightarrow> nat \<times> nat" where
  "py_slice n start stop = (py_slice_bound n start, py_slice_bound n stop)"

definition set_true :: "np_grid \<Rightarrow> int \<times> int \<Rightarrow> int \<times> int \<Rightarrow> np_grid" where
  "set_true a rs cs =
     (let r = py_slice (fst (shape a)) (fst rs) (snd rs);
          c = py_slice (snd (shape a)) (fst cs) (snd cs)
      in a\<lparr>cells :=
             map (\<lambda>(i, row).
                    map (\<lambda>(j, v). if fst r \<le> i \<and> i < snd r \<and> fst c \<le> j \<and> j < snd c
                                  then True else v)
                        (enumerate 0 row))
                 (enumerate 0 (cells a))\<rparr>)"

text \<open>\<^verbatim>\<open>xs[i]\<close> on a list, where a negative index counts from the end.\<close>

definition py_index :: "'a list \<Rightarrow> int \<Rightarrow> py_error + 'a" where
  "py_index xs i =
     (if - int (length xs) \<le> i \<and> i < int (length xs)
      then Inr (xs ! nat (i mod int (length xs)))
      else Inl IndexError)"

subsection \<open>The viewer\<close>

text \<open>
  Of the handlers of this class the model has \<^verbatim>\<open>load_image\<close>,
  \<^verbatim>\<open>initialize_tracking\<close>, \<^verbatim>\<open>update_info\<close>, \<^verbatim>\<open>get_tracking_level\<close>,
  \<^verbatim>\<open>mark_visited\<close>, \<^verbatim>\<open>update_map\<close>, \<^verbatim>\<open>update_view\<close>,
  \<^verbatim>\<open>set_zoom_percent\<close>, \<^verbatim>\<open>zoom_in\<close>, \<^verbatim>\<open>zoom_out\<close> and
  \<^verbatim>\<open>reset\<close>. \<^verbatim>\<open>pan\<close> and \<^verbatim>\<open>click_map\<close> change the offset and then call
  \<^verbatim>\<open>update_view\<close>, and \<^verbatim>\<open>clear_tracking\<close> fills every array with
  \<^verbatim>\<open>False\<close>; they are not part of the model. The colours, the thumbnail and its
  scale factors are not state of the model.
\<close>

text \<open>
  \<open>tracking_grids\<close> is the dictionary from a zoom percentage to its array, or to
  \<^verbatim>\<open>None\<close> before the first load.
\<close>

record tracking_viewer = viewer +
  tracking_levels :: "int list"
  tracking_grids :: "int \<rightharpoonup> np_grid option"
  grid_cell_size :: int

definition WSITrackingViewer :: tracking_viewer where
  "WSITrackingViewer =
     \<lparr>slide = None, image_pil = None, use_openslide = False, slide_dimensions = (0, 0),
      level_count = 0, level_dimensions = [], level_downsamples = [],
      zoom = 1, offset_x = 0, offset_y = 0, photo = None,
      tracking_levels = [10, 40, 60, 80],
      tracking_grids = [10 \<mapsto> None, 40 \<mapsto> None, 60 \<mapsto> None, 80 \<mapsto> None],
      grid_cell_size = 100\<rparr>"

text \<open>The loop \<^verbatim>\<open>for percent in self.tracking_levels\<close> of \<^verbatim>\<open>initialize_tracking\<close>.\<close>

fun alloc_loop ::
  "int list \<Rightarrow> int \<times> int \<Rightarrow> (int \<rightharpoonup> np_grid option) \<Rightarrow> py_error + (int \<rightharpoonup> np_grid option)" where
  "alloc_loop [] sh grids = Inr grids"
| "alloc_loop (percent # rest) sh grids =
     (case np_zeros sh of
        Inl e \<Rightarrow> Inl e
      | Inr a \<Rightarrow> alloc_loop rest sh (grids(percent \<mapsto> Some a)))"

definition initialize_tracking :: "tracking_viewer \<Rightarrow> py_error + tracking_viewer" where
  "initialize_tracking s =
     (let w = fst (slide_dimensions s);
          h = snd (slide_dimensions s)
      in if grid_cell_size s = 0 then Inl ZeroDivisionError
         else
           let grid_w = w div grid_cell_size s + 1;
               grid_h = h div grid_cell_size s + 1
           in (case alloc_loop (tracking_levels s) (grid_h, grid_w) (tracking_grids s) of
                 Inl e \<Rightarrow> Inl e
               | Inr grids \<Rightarrow> Inr (s\<lparr>tracking_grids := grids\<rparr>)))"

definition update_info_track :: "tracking_viewer \<Rightarrow> outcome" where
  "update_info_track s =
     (if use_openslide s \<and> slide s = None then Raised AttributeError else Done)"

definition get_tracking_level :: "tracking_viewer \<Rightarrow> int \<Rightarrow> py_error + int" where
  "get_tracking_level s zoom_percent =
     py_min_key (\<lambda>x. \<bar>x - zoom_percent\<bar>) (tracking_levels s)"

text \<open>
  The cell indices \<^verbatim>\<open>(grid_x1, grid_y1, grid_x2, grid_y2)\<close> that
  \<^verbatim>\<open>mark_visited\<close> computes for the array \<open>a\<close> of the selected bucket.
\<close>

definition visit_rect ::
  "int \<times> int \<Rightarrow> tracking_viewer \<Rightarrow> np_grid \<Rightarrow> int \<times> int \<times> int \<times> int" where
  "visit_rect cv s a =
     (let w = max (fst cv) 1;
          h = max (snd cv) 1;
          view_w = real_of_int w / zoom s;
          view_h = real_of_int h / zoom s;
          x1 = py_int (offset_x s);
          y1 = py_int (offset_y s);
          x2 = py_int (offset_x s + view_w);
          y2 = py_int (offset_y s + view_h);
          grid_x1 = max 0 (x1 div grid_cell_size s);
          grid_y1 = max 0 (y1 div grid_cell_size s);
          grid_x2 = min (snd (shape a) - 1) (x2 div grid_cell_size s);
          grid_y2 = min (fst (shape a) - 1) (y2 div grid_cell_size s)
      in (grid_x1, grid_y1, grid_x2, grid_y2))"

definition mark_visited :: "int \<times> int \<Rightarrow> tracking_viewer \<Rightarrow> tracking_viewer \<times> outcome" where
  "mark_visited cv s =
     (if fst (slide_dimensions s) = 0 then (s, Done)
      else
        let zoom_percent = py_int (zoom s * 100)
        in (case get_tracking_level s zoom_percent of
              Inl e \<Rightarrow> (s, Raised e)
            | Inr tracking_level \<Rightarrow>
                (case tracking_grids s tracking_level of
                   None \<Rightarrow> (s, Done)
                 | Some entry \<Rightarrow>
                     if zoom s = 0 then (s, Raised ZeroDivisionError)
                     else if grid_cell_size s = 0 then (s, Raised ZeroDivisionError)
                     else
                       (case entry of
                          None \<Rightarrow> (s, Raised AttributeError)
                        | Some a \<Rightarrow>
                            (case visit_rect cv s a of
                               (grid_x1, grid_y1, grid_x2, grid_y2) \<Rightarrow>
                                 (s\<lparr>tracking_grids :=
                                      (tracking_grids s)(tracking_level \<mapsto>
                                         Some (set_true a (grid_y1, grid_y2 + 1)
                                                 (grid_x1, grid_x2 + 1)))\<rparr>,
                                  Done))))))"

text \<open>
  \<^verbatim>\<open>update_map\<close> draws the thumbnail and the overlay; of it the model keeps the
  exceptions that can leave it: the read of the lowest level or the copy of the flat
  image, the division by the image height for the vertical scale, and the lookup of
  every bucket's array.
\<close>

definition update_map :: "tracking_viewer \<Rightarrow> outcome" where
  "update_map s =
     (if fst (slide_dimensions s) = 0 then Done
      else
        (case (if use_openslide s then
                 (case py_index (level_dimensions s) (level_count s - 1) of
                    Inl e \<Rightarrow> Some e
                  | Inr thumb_size \<Rightarrow> if slide s = None then Some AttributeError else None)
               else if image_pil s = None then Some AttributeError else None) of
           Some e \<Rightarrow> Raised e
         | None \<Rightarrow>
             if snd (slide_dimensions s) = 0 then Raised ZeroDivisionError
             else if list_ex (\<lambda>percent. tracking_grids s percent = None) (tracking_levels s)
             then Raised KeyError else Done))"

definition update_view_track :: "int \<times> int \<Rightarrow> tracking_viewer \<Rightarrow> tracking_viewer \<times> outcome" where
  "update_view_track cv s =
     (if fst (slide_dimensions s) = 0 then (s, Done)
      else if zoom s = 0 then (s, Raised ZeroDivisionError)
      else
        (case clamp_view cv s of
           (s1, view_w, view_h) \<Rightarrow>
             (case mark_visited cv s1 of
                (s2, Raised e) \<Rightarrow> (s2, Raised e)
              | (s2, out) \<Rightarrow>
                  (case read_region s2 (offset_x s2) (offset_y s2)
                          (real_of_int view_w) (real_of_int view_h) (zoom s2) of
                     Inl e \<Rightarrow> (s2, Raised e)
                   | Inr r \<Rightarrow>
                       (s2\<lparr>photo := Some r\<rparr>, update_map (s2\<lparr>photo := Some r\<rparr>))))))"

definition reset_track :: "int \<times> int \<Rightarrow> tracking_viewer \<Rightarrow> tracking_viewer \<times> outcome" where
  "reset_track cv s = update_view_track cv (s\<lparr>zoom := 1, offset_x := 0, offset_y := 0\<rparr>)"

definition set_zoom_percent ::
  "int \<times> int \<Rightarrow> int \<Rightarrow> tracking_viewer \<Rightarrow> tracking_viewer \<times> outcome" where
  "set_zoom_percent cv percent s =
     (if fst (slide_dimensions s) \<noteq> 0
      then update_view_track cv (s\<lparr>zoom := real_of_int percent / 100\<rparr>)
      else (s, Done))"

definition zoom_in_track :: "int \<times> int \<Rightarrow> tracking_viewer \<Rightarrow> tracking_viewer \<times> outcome" where
  "zoom_in_track cv s =
     (if fst (slide_dimensions s) \<noteq> 0
      then update_view_track cv (s\<lparr>zoom := min (zoom s * (3 / 2)) 10\<rparr>)
      else (s, Done))"

definition zoom_out_track :: "int \<times> int \<Rightarrow> tracking_viewer \<Rightarrow> tracking_viewer \<times> outcome" where
  "zoom_out_track cv s =
     (if fst (slide_dimensions s) \<noteq> 0
      then update_view_track cv (s\<lparr>zoom := max (zoom s / (3 / 2)) (1 / 20)\<rparr>)
      else (s, Done))"

definition load_image_track ::
  "decoders \<Rightarrow> int \<times> int \<Rightarrow> string \<Rightarrow> tracking_viewer \<Rightarrow> tracking_viewer \<times> outcome" where
  "load_image_track env cv path s =
     (if path = [] then (s, Done)
      else
        (case open_source env path s of
           (s2, Some e) \<Rightarrow> (s2, Shown (Could_not_load e))
         | (s2, None) \<Rightarrow>
             (case initialize_tracking s2 of
                Inl e \<Rightarrow> (s2, Shown (Could_not_load e))
              | Inr s3 \<Rightarrow>
                  (case update_info_track s3 of
                     Raised e \<Rightarrow> (s3, Shown (Could_not_load e))
                   | out3 \<Rightarrow>
                       (case reset_track cv s3 of
                          (s4, Raised e) \<Rightarrow> (s4, Shown (Could_not_load e))
                        | (s4, out4) \<Rightarrow> (s4, Shown Image_loaded))))))"

section \<open>The specification's rounding\<close>

text \<open>
  The specification words two computations with \<^verbatim>\<open>round\<close> where the source calls
  \<^verbatim>\<open>int\<close>. \<open>py_round\<close> is Python's \<^verbatim>\<open>round\<close> on a float: to the nearest integer,
  a tie to the even one. It is used only to compare the source with those sentences.
\<close>

definition py_round :: "real \<Rightarrow> int" where
  "py_round x =
     (let f = \<lfloor>x\<rfloor>; d = x - real_of_int f
      in if d < 1 / 2 then f else if 1 / 2 < d then f + 1 else if even f then f else f + 1)"

section \<open>Example states\<close>

text \<open>
  A tracking viewer showing a slide with three pyramid levels of downsample 1, 2 and 4.
\<close>

definition example_pyramid :: tracking_viewer where
  "example_pyramid =
     WSITrackingViewer
       \<lparr>slide := Some \<lparr>os_dimensions = (4000, 3000), os_level_count = 3,
                         os_level_dimensions = [(4000, 3000), (2000, 1500), (1000, 750)],
                         os_level_downsamples = [1, 2, 4]\<rparr>,
        use_openslide := True, slide_dimensions := (4000, 3000), level_count := 3,
        level_dimensions := [(4000, 3000), (2000, 1500), (1000, 750)],
        level_downsamples := [1, 2, 4]\<rparr>"

text \<open>
  A grid viewer holding a flat image of 20000 by 15000 pixels with the default grid size
  5000 (four columns, three rows), and a tracking viewer holding a flat image of 300 by
  200 pixels with its four tracking grids allocated.
\<close>

definition example_grid :: grid_viewer where
  "example_grid =
     WholeSlideImageViewer
       \<lparr>image_pil := Some (20000, 15000), slide_dimensions := (20000, 15000),
        max_cols := 4, max_rows := 3\<rparr>"

definition example_flat :: tracking_viewer where
  "example_flat =
     WSITrackingViewer
       \<lparr>image_pil := Some (300, 200), slide_dimensions := (300, 200),
        tracking_grids :=
          [10 \<mapsto> Some \<lparr>shape = (3, 4), cells = replicate 3 (replicate 4 False)\<rparr>,
           40 \<mapsto> Some \<lparr>shape = (3, 4), cells = replicate 3 (replicate 4 False)\<rparr>,
           60 \<mapsto> Some \<lparr>shape = (3, 4), cells = replicate 3 (replicate 4 False)\<rparr>,
           80 \<mapsto> Some \<lparr>shape = (3, 4), cells = replicate 3 (replicate 4 False)\<rparr>]\<rparr>"

text \<open>
  The same two viewers after a zoom and a pan that leave the offset outside the image.
\<close>

definition example_grid_panned :: grid_viewer where
  "example_grid_panned = example_grid\<lparr>zoom := 2, offset_x := 30000, offset_y := - 5\<rparr>"

definition example_flat_panned :: tracking_viewer where
  "example_flat_panned = example_flat\<lparr>zoom := 1 / 2, offset_x := 250, offset_y := 10\<rparr>"

text \<open>
  The tracking viewer at the point where \<^verbatim>\<open>load_image\<close> calls
  \<^verbatim>\<open>initialize_tracking\<close> for a flat image of 200 by 100 pixels.
\<close>

definition example_opened :: tracking_viewer where
  "example_opened =
     WSITrackingViewer\<lparr>image_pil := Some (200, 100), slide_dimensions := (200, 100)\<rparr>"

text \<open>
  The tracking viewer on the 300 by 200 image at zoom 10, panned towards the lower right
  corner.
\<close>

definition example_flat_zoomed :: tracking_viewer where
  "example_flat_zoomed = example_flat\<lparr>zoom := 10, offset_x := 250, offset_y := 150\<rparr>"

text \<open>
  Decoders for a directory that holds one readable flat image, \<^verbatim>\<open>photo.png\<close> of
  300 by 200 pixels, and nothing else that any decoder can open.
\<close>

definition example_decoders :: decoders where
  "example_decoders =
     \<lparr>OPENSLIDE_AVAILABLE = True,
      OpenSlide = (\<lambda>path. Inl OpenSlideError),
      tifffile_imread = (\<lambda>path. Inl OSError),
      Image_open = (\<lambda>path. if path = ''photo.png'' then Inr (300, 200) else Inl OSError)\<rparr>"

text \<open>
  The two viewers after \<^verbatim>\<open>photo.png\<close> has been loaded into the fresh viewer on a
  canvas of 800 by 600: the whole image is on the canvas, and in the tracking viewer the
  first refresh, at zoom 1, has marked every cell of bucket 80.
\<close>

definition example_loaded_grid :: grid_viewer where
  "example_loaded_grid =
     WholeSlideImageViewer
       \<lparr>image_pil := Some (300, 200), slide_dimensions := (300, 200),
        photo := Some (Crop_resize (0, 0, 300, 200) (300, 200)),
        max_cols := 1, max_rows := 1\<rparr>"

definition example_loaded_track :: tracking_viewer where
  "example_loaded_track =
     WSITrackingViewer
       \<lparr>image_pil := Some (300, 200), slide_dimensions := (300, 200),
        photo := Some (Crop_resize (0, 0, 300, 200) (300, 200)),
        tracking_grids :=
          [10 \<mapsto> Some \<lparr>shape = (3, 4), cells = replicate 3 (replicate 4 False)\<rparr>,
           40 \<mapsto> Some \<lparr>shape = (3, 4), cells = replicate 3 (replicate 4 False)\<rparr>,
           60 \<mapsto> Some \<lparr>shape = (3, 4), cells = replicate 3 (replicate 4 False)\<rparr>,
           80 \<mapsto> Some \<lparr>shape = (3, 4), cells = replicate 3 (replicate 4 True)\<rparr>]\<rparr>"

section \<open>Level selection\<close>

text \<open>
  The scan keeps, at every step, the first index seen so far whose distance to the
  target is minimal.
\<close>

lemma best_level_scan_inv:
  "all = pre @ rest \<Longrightarrow> level = length pre \<Longrightarrow> best < length all \<Longrightarrow>
   md = \<bar>all ! best - t\<bar> \<Longrightarrow>
   (\<forall>j<level. md \<le> \<bar>all ! j - t\<bar>) \<Longrightarrow> (\<forall>j<best. md < \<bar>all ! j - t\<bar>) \<Longrightarrow>
   best_level_scan t rest level best md < length all \<and>
   (\<forall>j<length all. \<bar>all ! best_level_scan t rest level best md - t\<bar> \<le> \<bar>all ! j - t\<bar>) \<and>
   (\<forall>j<best_level_scan t rest level best md.
       \<bar>all ! best_level_scan t rest level best md - t\<bar> < \<bar>all ! j - t\<bar>)"
proof (induction rest arbitrary: pre level best md)
  case Nil
  then show ?case by simp
next
  case (Cons d rest)
  have d: "all ! level = d" using Cons.prems(1,2) by simp
  have lv: "level < length all" using Cons.prems(1,2) by simp
  have split: "all = (pre @ [d]) @ rest" "Suc level = length (pre @ [d])"
    using Cons.prems(1,2) by simp_all
  show ?case
  proof (cases "\<bar>d - t\<bar> < md")
    case True
    have a: "\<forall>j<Suc level. \<bar>d - t\<bar> \<le> \<bar>all ! j - t\<bar>"
      using Cons.prems(5) True d by (auto simp: less_Suc_eq)
    have b: "\<forall>j<level. \<bar>d - t\<bar> < \<bar>all ! j - t\<bar>"
      using Cons.prems(5) True by fastforce
    have "\<bar>d - t\<bar> = \<bar>all ! level - t\<bar>" using d by simp
    from Cons.IH[OF split lv this a b] True show ?thesis by simp
  next
    case False
    have a: "\<forall>j<Suc level. md \<le> \<bar>all ! j - t\<bar>"
      using Cons.prems(5) False d by (auto simp: less_Suc_eq)
    from Cons.IH[OF split Cons.prems(3) Cons.prems(4) a Cons.prems(6)] False
    show ?thesis by simp
  qed
qed

lemma best_level_scan_first_min:
  fixes t :: real and ds :: "real list"
  assumes "ds \<noteq> []"
  defines "r \<equiv> best_level_scan t ds 0 0 \<bar>ds ! 0 - t\<bar>"
  shows "r < length ds \<and> (\<forall>j<length ds. \<bar>ds ! r - t\<bar> \<le> \<bar>ds ! j - t\<bar>) \<and>
         (\<forall>j<r. \<bar>ds ! r - t\<bar> < \<bar>ds ! j - t\<bar>)"
  unfolding r_def
  using best_level_scan_inv[of ds "[]" ds 0 0 "\<bar>ds ! 0 - t\<bar>" t] assms(1) by simp

lemma first_min_unique:
  fixes f :: "nat \<Rightarrow> real"
  assumes "r < n" "\<forall>j<n. f r \<le> f j" "\<forall>j<r. f r < f j"
      and "k < n" "\<forall>j<n. f k \<le> f j" "\<forall>j<k. f k < f j"
  shows "r = k"
proof (rule ccontr)
  assume "r \<noteq> k"
  then consider "r < k" | "k < r" by linarith
  then show False
  proof cases
    case 1
    then have "f k < f r" using assms(6) by simp
    moreover have "f r \<le> f k" using assms(2,4) by simp
    ultimately show False by simp
  next
    case 2
    then have "f r < f k" using assms(3) by simp
    moreover have "f k \<le> f r" using assms(5,1) by simp
    ultimately show False by simp
  qed
qed

lemma get_best_level_pyramidal:
  assumes "use_openslide s" "level_downsamples s \<noteq> []" "z \<noteq> 0"
  shows "get_best_level s z = Inr (best_level_scan (1 / z) (level_downsamples s) 0 0
            \<bar>level_downsamples s ! 0 - 1 / z\<bar>)"
  using assms by (cases "level_downsamples s") (simp_all add: get_best_level_def)

lemma mid_le:
  "(a::real) \<le> t \<Longrightarrow> t \<le> b \<Longrightarrow> t \<le> (a + b) / 2 \<Longrightarrow> \<bar>a - t\<bar> \<le> \<bar>b - t\<bar>"
  by (simp add: abs_if field_simps)

lemma mid_gt:
  "(a::real) \<le> t \<Longrightarrow> t \<le> b \<Longrightarrow> \<not> t \<le> (a + b) / 2 \<Longrightarrow> \<bar>b - t\<bar> < \<bar>a - t\<bar>"
  by (simp add: abs_if field_simps)

lemma left_farther:
  "(c::real) < a \<Longrightarrow> a \<le> t \<Longrightarrow> \<bar>a - t\<bar> < \<bar>c - t\<bar>"
  by (simp add: abs_if)

lemma right_farther:
  "(t::real) \<le> b \<Longrightarrow> b < c \<Longrightarrow> \<bar>b - t\<bar> < \<bar>c - t\<bar>"
  by (simp add: abs_if)

lemma adjacent_first_min:
  fixes ds :: "real list"
  assumes inc: "sorted_wrt (<) ds" and i: "Suc i < length ds"
      and lo: "ds ! i \<le> t" and hi: "t \<le> ds ! Suc i"
  defines "k \<equiv> (if t \<le> (ds ! i + ds ! Suc i) / 2 then i else Suc i)"
  shows "k < length ds \<and> (\<forall>j<length ds. \<bar>ds ! k - t\<bar> \<le> \<bar>ds ! j - t\<bar>) \<and>
         (\<forall>j<k. \<bar>ds ! k - t\<bar> < \<bar>ds ! j - t\<bar>)"
proof -
  have mono: "\<And>a b. a < b \<Longrightarrow> b < length ds \<Longrightarrow> ds ! a < ds ! b"
    using inc by (simp add: sorted_wrt_iff_nth_less)
  have below: "\<bar>ds ! i - t\<bar> < \<bar>ds ! j - t\<bar>" if "j < i" for j
  proof -
    have "ds ! j < ds ! i" using mono[OF that] i by simp
    then show ?thesis using lo by (rule left_farther)
  qed
  have above: "\<bar>ds ! Suc i - t\<bar> < \<bar>ds ! j - t\<bar>" if "Suc i < j" "j < length ds" for j
  proof -
    have "ds ! Suc i < ds ! j" using mono[OF that] .
    with hi show ?thesis by (rule right_farther)
  qed
  show ?thesis
  proof (cases "t \<le> (ds ! i + ds ! Suc i) / 2")
    case True
    then have k: "k = i" by (simp add: k_def)
    have mid: "\<bar>ds ! i - t\<bar> \<le> \<bar>ds ! Suc i - t\<bar>" using lo hi True by (rule mid_le)
    have "\<bar>ds ! i - t\<bar> \<le> \<bar>ds ! j - t\<bar>" if "j < length ds" for j
    proof -
      consider "j < i" | "j = i" | "j = Suc i" | "Suc i < j" by linarith
      then show ?thesis
      proof cases
        case 1 then show ?thesis using below[of j] by simp
      next
        case 2 then show ?thesis by simp
      next
        case 3 then show ?thesis using mid by simp
      next
        case 4
        have "\<bar>ds ! Suc i - t\<bar> < \<bar>ds ! j - t\<bar>" using above[OF 4 that] .
        with mid show ?thesis by simp
      qed
    qed
    then show ?thesis using k i below by simp
  next
    case False
    then have k: "k = Suc i" by (simp add: k_def)
    have mid: "\<bar>ds ! Suc i - t\<bar> < \<bar>ds ! i - t\<bar>" using lo hi False by (rule mid_gt)
    have strict: "\<bar>ds ! Suc i - t\<bar> < \<bar>ds ! j - t\<bar>" if jlt: "j < Suc i" for j
    proof -
      from jlt consider "j < i" | "j = i" by linarith
      then show ?thesis
      proof cases
        case 1
        have "\<bar>ds ! i - t\<bar> < \<bar>ds ! j - t\<bar>" using below[OF 1] .
        with mid show ?thesis by simp
      next
        case 2 then show ?thesis using mid by simp
      qed
    qed
    have "\<bar>ds ! Suc i - t\<bar> \<le> \<bar>ds ! j - t\<bar>" if "j < length ds" for j
    proof -
      consider "j < Suc i" | "j = Suc i" | "Suc i < j" by linarith
      then show ?thesis
      proof cases
        case 1 then show ?thesis using strict[of j] by simp
      next
        case 2 then show ?thesis by simp
      next
        case 3 then show ?thesis using above[OF 3 that] by simp
      qed
    qed
    then show ?thesis using k i strict by simp
  qed
qed

text \<open>
  C2 (as amended). \<^verbatim>\<open>get_best_level\<close> returns 0 for a flat image. For a pyramidal
  image with a non-empty level list and a non-zero zoom it returns the first index, scanning
  from level 0, whose downsample has minimum absolute difference from \<open>1 / zoom\<close>. When
  the downsamples increase strictly and \<open>1 / zoom\<close> lies between the downsamples of two
  adjacent levels \<open>i\<close> and \<open>i + 1\<close>, the selected level is \<open>i\<close> as long as \<open>1 / zoom\<close> is at
  most the midpoint of the two downsamples (the lower index wins the tie at the
  midpoint) and \<open>i + 1\<close> beyond it: the switch is at the midpoint of the downsamples
  measured in \<open>1 / zoom\<close>, not at the midpoint of the inverse downsamples measured in
  zoom.
\<close>

theorem get_best_level_nearest:
  "(\<not> use_openslide s \<longrightarrow> get_best_level s z = Inr 0) \<and>
   (use_openslide s \<and> level_downsamples s \<noteq> [] \<and> z \<noteq> 0 \<longrightarrow>
      (\<exists>k. get_best_level s z = Inr k \<and> k < length (level_downsamples s) \<and>
           (\<forall>j<length (level_downsamples s).
               \<bar>level_downsamples s ! k - 1 / z\<bar> \<le> \<bar>level_downsamples s ! j - 1 / z\<bar>) \<and>
           (\<forall>j<k. \<bar>level_downsamples s ! k - 1 / z\<bar> < \<bar>level_downsamples s ! j - 1 / z\<bar>))) \<and>
   (use_openslide s \<and> z \<noteq> 0 \<and> sorted_wrt (<) (level_downsamples s) \<and>
    Suc i < length (level_downsamples s) \<and>
    level_downsamples s ! i \<le> 1 / z \<and> 1 / z \<le> level_downsamples s ! Suc i \<longrightarrow>
      get_best_level s z =
        Inr (if 1 / z \<le> (level_downsamples s ! i + level_downsamples s ! Suc i) / 2
             then i else Suc i))"
proof (intro conjI impI)
  assume "\<not> use_openslide s"
  then show "get_best_level s z = Inr 0" by (simp add: get_best_level_def)
next
  assume a: "use_openslide s \<and> level_downsamples s \<noteq> [] \<and> z \<noteq> 0"
  then show "\<exists>k. get_best_level s z = Inr k \<and> k < length (level_downsamples s) \<and>
           (\<forall>j<length (level_downsamples s).
               \<bar>level_downsamples s ! k - 1 / z\<bar> \<le> \<bar>level_downsamples s ! j - 1 / z\<bar>) \<and>
           (\<forall>j<k. \<bar>level_downsamples s ! k - 1 / z\<bar> < \<bar>level_downsamples s ! j - 1 / z\<bar>)"
    using get_best_level_pyramidal[of s z] best_level_scan_first_min[of "level_downsamples s" "1 / z"]
    by simp
next
  assume a: "use_openslide s \<and> z \<noteq> 0 \<and> sorted_wrt (<) (level_downsamples s) \<and>
    Suc i < length (level_downsamples s) \<and>
    level_downsamples s ! i \<le> 1 / z \<and> 1 / z \<le> level_downsamples s ! Suc i"
  let ?ds = "level_downsamples s"
  let ?k = "if 1 / z \<le> (?ds ! i + ?ds ! Suc i) / 2 then i else Suc i"
  let ?r = "best_level_scan (1 / z) ?ds 0 0 \<bar>?ds ! 0 - 1 / z\<bar>"
  have ne: "?ds \<noteq> []" using a by auto
  have R: "?r < length ?ds \<and> (\<forall>j<length ?ds. \<bar>?ds ! ?r - 1 / z\<bar> \<le> \<bar>?ds ! j - 1 / z\<bar>) \<and>
         (\<forall>j<?r. \<bar>?ds ! ?r - 1 / z\<bar> < \<bar>?ds ! j - 1 / z\<bar>)"
    using best_level_scan_first_min[OF ne, of "1 / z"] by simp
  have K: "?k < length ?ds \<and> (\<forall>j<length ?ds. \<bar>?ds ! ?k - 1 / z\<bar> \<le> \<bar>?ds ! j - 1 / z\<bar>) \<and>
         (\<forall>j<?k. \<bar>?ds ! ?k - 1 / z\<bar> < \<bar>?ds ! j - 1 / z\<bar>)"
    using adjacent_first_min[of ?ds i "1 / z"] a by simp
  have "?r = ?k"
    using first_min_unique[of ?r "length ?ds" "\<lambda>j. \<bar>?ds ! j - 1 / z\<bar>" ?k] R K by blast
  then show "get_best_level s z = Inr ?k"
    using get_best_level_pyramidal[of s z] a ne by simp
qed

text \<open>
  Witness for C2: the fresh viewer is flat and selects level 0; on the example pyramid a
  zoom of 2/3 puts \<open>1 / zoom\<close> on the midpoint 3/2 of the downsamples 1 and 2, and level 0
  is selected; a zoom of 3/10 puts it beyond the midpoint 3 of the downsamples 2 and 4,
  and level 2 is selected.
\<close>

theorem get_best_level_nearest_witness:
  "get_best_level WSITrackingViewer (2 / 3) = Inr 0 \<and>
   get_best_level example_pyramid (2 / 3) = Inr 0 \<and>
   get_best_level example_pyramid (3 / 10) = Inr 2"
proof -
  have flat: "get_best_level WSITrackingViewer (2 / 3) = Inr 0"
    using get_best_level_nearest[of WSITrackingViewer "2 / 3" 0]
    by (simp add: WSITrackingViewer_def)
  have tie: "get_best_level example_pyramid (2 / 3) = Inr 0"
    using get_best_level_nearest[of example_pyramid "2 / 3" 0]
    by (simp add: example_pyramid_def WSITrackingViewer_def)
  have beyond: "get_best_level example_pyramid (3 / 10) = Inr 2"
    using get_best_level_nearest[of example_pyramid "3 / 10" 1]
    by (simp add: example_pyramid_def WSITrackingViewer_def)
  from flat tie beyond show ?thesis by simp
qed

text \<open>
  Counterexample for C2 as stated: levels 0 and 1 of the example pyramid have the inverse
  downsamples 1 and 1/2, whose midpoint is 3/4. The zoom values 7/10 and 8/10 straddle
  that midpoint, and both select level 0: the level does not switch there.
\<close>

theorem get_best_level_midpoint_counterexample:
  "(7 / 10 :: real) < (1 / 1 + 1 / 2) / 2 \<and> ((1 / 1 + 1 / 2) / 2 :: real) < 8 / 10 \<and>
   get_best_level example_pyramid (7 / 10) = Inr 0 \<and>
   get_best_level example_pyramid (8 / 10) = Inr 0"
  by (simp add: get_best_level_def example_pyramid_def WSITrackingViewer_def)

section \<open>Which fields the operations change\<close>

text \<open>
  The clamp changes the two offsets and nothing else; marking a visit changes the
  tracking grids and nothing else; a refresh leaves the zoom and the image dimensions
  alone.
\<close>

lemma py_int_nonneg: "0 \<le> x \<Longrightarrow> 0 \<le> py_int x"
  by (simp add: py_int_def)

lemma py_int_le: "0 \<le> x \<Longrightarrow> real_of_int (py_int x) \<le> x"
  by (simp add: py_int_def)

lemma clamp_view_state:
  "fst (clamp_view cv s) =
     s\<lparr>offset_x := max 0 (min (offset_x s)
            (real_of_int (fst (slide_dimensions s) - fst (snd (clamp_view cv s))))),
       offset_y := max 0 (min (offset_y s)
            (real_of_int (snd (slide_dimensions s) - snd (snd (clamp_view cv s)))))\<rparr>"
  unfolding clamp_view_def Let_def fst_conv snd_conv ..

lemma clamp_view_w:
  "fst (snd (clamp_view cv s)) =
     min (py_int (real_of_int (max (fst cv) 1) / zoom s)) (fst (slide_dimensions s))"
  unfolding clamp_view_def Let_def fst_conv snd_conv ..

lemma clamp_view_h:
  "snd (snd (clamp_view cv s)) =
     min (py_int (real_of_int (max (snd cv) 1) / zoom s)) (snd (slide_dimensions s))"
  unfolding clamp_view_def Let_def fst_conv snd_conv ..

lemma clamp_view_fields:
  "zoom (fst (clamp_view cv s)) = zoom s"
  "slide_dimensions (fst (clamp_view cv s)) = slide_dimensions s"
  "use_openslide (fst (clamp_view cv s)) = use_openslide s"
  "slide (fst (clamp_view cv s)) = slide s"
  "image_pil (fst (clamp_view cv s)) = image_pil s"
  "level_downsamples (fst (clamp_view cv s)) = level_downsamples s"
  by (subst clamp_view_state, simp)+

lemma clamp_view_offset_x:
  "offset_x (fst (clamp_view cv s)) =
     max 0 (min (offset_x s)
       (real_of_int (fst (slide_dimensions s) - fst (snd (clamp_view cv s)))))"
  by (subst clamp_view_state, simp)

lemma clamp_view_offset_y:
  "offset_y (fst (clamp_view cv s)) =
     max 0 (min (offset_y s)
       (real_of_int (snd (slide_dimensions s) - snd (snd (clamp_view cv s)))))"
  by (subst clamp_view_state, simp)


lemma clamp_view_bounds:
  assumes z: "0 < zoom s"
      and w: "0 \<le> fst (slide_dimensions s)" and h: "0 \<le> snd (slide_dimensions s)"
  shows "0 \<le> fst (snd (clamp_view cv s))"
    and "fst (snd (clamp_view cv s)) \<le> fst (slide_dimensions s)"
    and "0 \<le> snd (snd (clamp_view cv s))"
    and "snd (snd (clamp_view cv s)) \<le> snd (slide_dimensions s)"
    and "0 \<le> offset_x (fst (clamp_view cv s))"
    and "offset_x (fst (clamp_view cv s)) + real_of_int (fst (snd (clamp_view cv s)))
           \<le> real_of_int (fst (slide_dimensions s))"
    and "0 \<le> offset_y (fst (clamp_view cv s))"
    and "offset_y (fst (clamp_view cv s)) + real_of_int (snd (snd (clamp_view cv s)))
           \<le> real_of_int (snd (slide_dimensions s))"
proof -
  let ?vw = "fst (snd (clamp_view cv s))" and ?vh = "snd (snd (clamp_view cv s))"
  have pw: "0 \<le> py_int (real_of_int (max (fst cv) 1) / zoom s)"
    using z by (intro py_int_nonneg) simp
  have ph: "0 \<le> py_int (real_of_int (max (snd cv) 1) / zoom s)"
    using z by (intro py_int_nonneg) simp
  show a1: "0 \<le> ?vw" using pw w by (simp add: clamp_view_w)
  show a2: "?vw \<le> fst (slide_dimensions s)" by (simp add: clamp_view_w)
  show b1: "0 \<le> ?vh" using ph h by (simp add: clamp_view_h)
  show b2: "?vh \<le> snd (slide_dimensions s)" by (simp add: clamp_view_h)
  show "0 \<le> offset_x (fst (clamp_view cv s))" by (subst clamp_view_offset_x) simp
  show "offset_x (fst (clamp_view cv s)) + real_of_int ?vw \<le> real_of_int (fst (slide_dimensions s))"
    using a2 by (subst clamp_view_offset_x) (simp add: max_def min_def)
  show "0 \<le> offset_y (fst (clamp_view cv s))" by (subst clamp_view_offset_y) simp
  show "offset_y (fst (clamp_view cv s)) + real_of_int ?vh \<le> real_of_int (snd (slide_dimensions s))"
    using b2 by (subst clamp_view_offset_y) (simp add: max_def min_def)
qed


lemma mark_visited_shape:
  "\<exists>grids out. mark_visited cv s = (s\<lparr>tracking_grids := grids\<rparr>, out)"
proof -
  have keep: "\<exists>grids. s = s\<lparr>tracking_grids := grids\<rparr>"
    by (rule exI[of _ "tracking_grids s"]) simp
  show ?thesis
    unfolding mark_visited_def Let_def
    by (auto split: sum.split option.split prod.split simp: keep)
qed

lemma mark_visited_fields:
  "offset_x (fst (mark_visited cv s)) = offset_x s"
  "offset_y (fst (mark_visited cv s)) = offset_y s"
  "zoom (fst (mark_visited cv s)) = zoom s"
  "slide_dimensions (fst (mark_visited cv s)) = slide_dimensions s"
  "use_openslide (fst (mark_visited cv s)) = use_openslide s"
  "slide (fst (mark_visited cv s)) = slide s"
  "image_pil (fst (mark_visited cv s)) = image_pil s"
  "level_downsamples (fst (mark_visited cv s)) = level_downsamples s"
  using mark_visited_shape[of cv s] by auto


lemma finish_view_grid_fields:
  "zoom (fst (finish_view_grid cv s r)) = zoom s"
  "slide_dimensions (fst (finish_view_grid cv s r)) = slide_dimensions s"
  "offset_x (fst (finish_view_grid cv s r)) = offset_x s"
  "offset_y (fst (finish_view_grid cv s r)) = offset_y s"
  by (simp_all add: finish_view_grid_def Let_def split: option.split sum.split)

lemma update_view_grid_unfold:
  "fst (slide_dimensions s) \<noteq> 0 \<Longrightarrow> zoom s \<noteq> 0 \<Longrightarrow>
   update_view_grid cv s =
     (case read_region (fst (clamp_view cv s)) (offset_x (fst (clamp_view cv s)))
             (offset_y (fst (clamp_view cv s)))
             (real_of_int (fst (snd (clamp_view cv s))))
             (real_of_int (snd (snd (clamp_view cv s)))) (zoom (fst (clamp_view cv s))) of
        Inl e \<Rightarrow> (fst (clamp_view cv s), Raised e)
      | Inr r \<Rightarrow> finish_view_grid cv (fst (clamp_view cv s)) r)"
  by (simp add: update_view_grid_def case_prod_beta)

lemma update_view_grid_fields:
  "zoom (fst (update_view_grid cv s)) = zoom s"
  "slide_dimensions (fst (update_view_grid cv s)) = slide_dimensions s"
  by (simp_all add: update_view_grid_def case_prod_beta clamp_view_fields
        finish_view_grid_fields split: sum.split)

lemma update_view_grid_offset:
  "fst (slide_dimensions s) \<noteq> 0 \<Longrightarrow> zoom s \<noteq> 0 \<Longrightarrow>
   offset_x (fst (update_view_grid cv s)) = offset_x (fst (clamp_view cv s)) \<and>
   offset_y (fst (update_view_grid cv s)) = offset_y (fst (clamp_view cv s))"
  by (simp add: update_view_grid_def case_prod_beta finish_view_grid_fields split: sum.split)

lemma update_view_track_unfold:
  "fst (slide_dimensions s) \<noteq> 0 \<Longrightarrow> zoom s \<noteq> 0 \<Longrightarrow>
   update_view_track cv s =
     (case mark_visited cv (fst (clamp_view cv s)) of
        (s2, Raised e) \<Rightarrow> (s2, Raised e)
      | (s2, out) \<Rightarrow>
          (case read_region s2 (offset_x s2) (offset_y s2)
                  (real_of_int (fst (snd (clamp_view cv s))))
                  (real_of_int (snd (snd (clamp_view cv s)))) (zoom s2) of
             Inl e \<Rightarrow> (s2, Raised e)
           | Inr r \<Rightarrow> (s2\<lparr>photo := Some r\<rparr>, update_map (s2\<lparr>photo := Some r\<rparr>))))"
  by (simp add: update_view_track_def case_prod_beta Let_def)

lemma update_view_track_fields:
  "zoom (fst (update_view_track cv s)) = zoom s"
  "slide_dimensions (fst (update_view_track cv s)) = slide_dimensions s"
proof -
  obtain s2 out where m: "mark_visited cv (fst (clamp_view cv s)) = (s2, out)"
    by (cases "mark_visited cv (fst (clamp_view cv s))")
  have z: "zoom s2 = zoom s" "slide_dimensions s2 = slide_dimensions s"
    using mark_visited_fields(3,4)[of cv "fst (clamp_view cv s)"] m
    by (simp_all add: clamp_view_fields)
  show "zoom (fst (update_view_track cv s)) = zoom s"
    using m z by (cases out)
      (simp_all add: update_view_track_def case_prod_beta Let_def split: sum.split)
  show "slide_dimensions (fst (update_view_track cv s)) = slide_dimensions s"
    using m z by (cases out)
      (simp_all add: update_view_track_def case_prod_beta Let_def split: sum.split)
qed

lemma zoom_in_grid_fields:
  "fst (slide_dimensions s) \<noteq> 0 \<Longrightarrow> zoom (fst (zoom_in_grid cv s)) = min (zoom s * (3 / 2)) 10"
  "slide_dimensions (fst (zoom_in_grid cv s)) = slide_dimensions s"
  by (simp_all add: zoom_in_grid_def Let_def update_view_grid_fields split: sum.split)

lemma zoom_out_grid_fields:
  "fst (slide_dimensions s) \<noteq> 0 \<Longrightarrow> zoom (fst (zoom_out_grid cv s)) = max (zoom s / (3 / 2)) (1 / 20)"
  "slide_dimensions (fst (zoom_out_grid cv s)) = slide_dimensions s"
  by (simp_all add: zoom_out_grid_def Let_def update_view_grid_fields split: sum.split)

lemma zoom_in_track_fields:
  "fst (slide_dimensions s) \<noteq> 0 \<Longrightarrow> zoom (fst (zoom_in_track cv s)) = min (zoom s * (3 / 2)) 10"
  "slide_dimensions (fst (zoom_in_track cv s)) = slide_dimensions s"
  by (simp_all add: zoom_in_track_def update_view_track_fields)

lemma zoom_out_track_fields:
  "fst (slide_dimensions s) \<noteq> 0 \<Longrightarrow> zoom (fst (zoom_out_track cv s)) = max (zoom s / (3 / 2)) (1 / 20)"
  "slide_dimensions (fst (zoom_out_track cv s)) = slide_dimensions s"
  by (simp_all add: zoom_out_track_def update_view_track_fields)

section \<open>The drawing loops end\<close>

text \<open>
  The loops of \<^verbatim>\<open>draw_grid\<close> step by \<open>grid_size * zoom\<close>. For a positive grid size
  and a positive zoom they end, so the refresh of the grid viewer returns or raises.
\<close>

lemma line_loop_returns:
  assumes "0 < cell"
  shows "line_loop x w cell = Some ()"
proof (induction "nat \<lceil>(w - x) / cell\<rceil>" arbitrary: x)
  case 0
  then have "(w - x) / cell \<le> 0" by (simp add: ceiling_le_iff)
  then have "w - x \<le> 0" using assms by (simp add: divide_le_0_iff)
  then have "\<not> x < w" by simp
  then show ?case by (subst line_loop.simps) simp
next
  case (Suc n)
  show ?case
  proof (cases "x < w")
    case True
    have "(w - (x + cell)) / cell = (w - x) / cell - 1"
      using assms by (simp add: field_simps)
    then have "nat \<lceil>(w - (x + cell)) / cell\<rceil> = nat (\<lceil>(w - x) / cell\<rceil> - 1)" by simp
    also have "\<dots> = n" using Suc.hyps(2) by simp
    finally have "n = nat \<lceil>(w - (x + cell)) / cell\<rceil>" by simp
    then have "line_loop (x + cell) w cell = Some ()" by (rule Suc.hyps(1))
    then show ?thesis using True by (subst line_loop.simps) simp
  next
    case False
    then show ?thesis by (subst line_loop.simps) simp
  qed
qed

lemma label_loop_returns:
  assumes "0 < cell"
  shows "label_loop x w y0 h cell = Some ()"
proof (induction "nat \<lceil>(w + cell - x) / cell\<rceil>" arbitrary: x)
  case 0
  then have "(w + cell - x) / cell \<le> 0" by (simp add: ceiling_le_iff)
  then have "w + cell - x \<le> 0" using assms by (simp add: divide_le_0_iff)
  then have "\<not> x < w + cell" by simp
  then show ?case by (subst label_loop.simps) simp
next
  case (Suc n)
  show ?case
  proof (cases "x < w + cell")
    case True
    have "(w + cell - (x + cell)) / cell = (w + cell - x) / cell - 1"
      using assms by (simp add: field_simps)
    then have "nat \<lceil>(w + cell - (x + cell)) / cell\<rceil> = nat (\<lceil>(w + cell - x) / cell\<rceil> - 1)"
      by simp
    also have "\<dots> = n" using Suc.hyps(2) by simp
    finally have "n = nat \<lceil>(w + cell - (x + cell)) / cell\<rceil>" by simp
    then have "label_loop (x + cell) w y0 h cell = Some ()" by (rule Suc.hyps(1))
    then show ?thesis
      using True line_loop_returns[OF assms, of y0 "h + cell"]
      by (subst label_loop.simps) simp
  next
    case False
    then show ?thesis by (subst label_loop.simps) simp
  qed
qed

lemma draw_grid_returns:
  assumes "0 < grid_size s" and "0 < zoom s"
  shows "draw_grid cv s = Some (Inr ())"
proof -
  have c: "0 < real_of_int (grid_size s) * zoom s" using assms by simp
  show ?thesis
    using assms(1) by (simp add: draw_grid_def Let_def line_loop_returns[OF c] label_loop_returns[OF c])
qed

lemma update_view_grid_returns:
  assumes "0 < grid_size s" and "0 < zoom s"
  shows "snd (update_view_grid cv s) \<noteq> Diverges"
proof -
  have g: "grid_size (fst (clamp_view cv s)) = grid_size s"
    by (subst clamp_view_state) simp
  have d: "draw_grid cv (fst (clamp_view cv s)) = Some (Inr ())"
    using assms by (intro draw_grid_returns) (simp_all add: g clamp_view_fields)
  show ?thesis
    using assms(1) g
    by (simp add: update_view_grid_def case_prod_beta finish_view_grid_def d Let_def
          split: sum.split)
qed

section \<open>The viewport clamp\<close>

text \<open>
  C1. With an image loaded (positive width, non-negative height) and a zoom in
  [0.05, 10], whatever the offset was before, the clamp at the start of
  \<^verbatim>\<open>update_view\<close> yields an offset and a view size with
  \<open>0 \<le> offset\<close> and \<open>offset + view size \<le> image dimension\<close> on both axes, in both
  viewers; and the refresh is the region read on exactly that state and rectangle (in
  the tracking viewer after the visit is marked, which leaves the offset alone),
  followed by what the read's result decides. \<^verbatim>\<open>read_region\<close> has no other caller.
  The view size is \<open>min (int (canvas / zoom)) image\<close>: the source truncates the
  quotient to an integer before the minimum.
\<close>

theorem update_view_clamp:
  fixes g :: grid_viewer and t :: tracking_viewer
  assumes "0 < fst (slide_dimensions g)" and "0 \<le> snd (slide_dimensions g)"
      and "1 / 20 \<le> zoom g" and "zoom g \<le> 10"
      and "0 < fst (slide_dimensions t)" and "0 \<le> snd (slide_dimensions t)"
      and "1 / 20 \<le> zoom t" and "zoom t \<le> 10"
  shows
    "(case clamp_view cv g of
        (g1, view_w, view_h) \<Rightarrow>
          0 \<le> view_w \<and> 0 \<le> view_h \<and>
          0 \<le> offset_x g1 \<and>
          offset_x g1 + real_of_int view_w \<le> real_of_int (fst (slide_dimensions g)) \<and>
          0 \<le> offset_y g1 \<and>
          offset_y g1 + real_of_int view_h \<le> real_of_int (snd (slide_dimensions g)) \<and>
          update_view_grid cv g =
            (case read_region g1 (offset_x g1) (offset_y g1)
                    (real_of_int view_w) (real_of_int view_h) (zoom g1) of
               Inl e \<Rightarrow> (g1, Raised e)
             | Inr r \<Rightarrow> finish_view_grid cv g1 r)) \<and>
     (case clamp_view cv t of
        (t1, view_w, view_h) \<Rightarrow>
          0 \<le> view_w \<and> 0 \<le> view_h \<and>
          0 \<le> offset_x t1 \<and>
          offset_x t1 + real_of_int view_w \<le> real_of_int (fst (slide_dimensions t)) \<and>
          0 \<le> offset_y t1 \<and>
          offset_y t1 + real_of_int view_h \<le> real_of_int (snd (slide_dimensions t)) \<and>
          (case mark_visited cv t1 of
             (t2, out) \<Rightarrow>
               offset_x t2 = offset_x t1 \<and> offset_y t2 = offset_y t1 \<and>
               update_view_track cv t =
                 (case out of
                    Raised e \<Rightarrow> (t2, Raised e)
                  | _ \<Rightarrow>
                      (case read_region t2 (offset_x t1) (offset_y t1)
                              (real_of_int view_w) (real_of_int view_h) (zoom t1) of
                         Inl e \<Rightarrow> (t2, Raised e)
                       | Inr r \<Rightarrow>
                           (t2\<lparr>photo := Some r\<rparr>, update_map (t2\<lparr>photo := Some r\<rparr>))))))"
proof -
  have zg: "0 < zoom g" and zt: "0 < zoom t" using assms by simp_all
  have wg: "0 \<le> fst (slide_dimensions g)" and wt: "0 \<le> fst (slide_dimensions t)"
    using assms by simp_all
  obtain g1 gw gh where cg: "clamp_view cv g = (g1, gw, gh)"
    by (cases "clamp_view cv g")
  obtain t1 tw th where ct: "clamp_view cv t = (t1, tw, th)"
    by (cases "clamp_view cv t")
  have bg: "0 \<le> gw \<and> 0 \<le> gh \<and> 0 \<le> offset_x g1 \<and>
      offset_x g1 + real_of_int gw \<le> real_of_int (fst (slide_dimensions g)) \<and>
      0 \<le> offset_y g1 \<and>
      offset_y g1 + real_of_int gh \<le> real_of_int (snd (slide_dimensions g))"
    using clamp_view_bounds[OF zg wg assms(2), of cv] unfolding cg by simp
  have bt: "0 \<le> tw \<and> 0 \<le> th \<and> 0 \<le> offset_x t1 \<and>
      offset_x t1 + real_of_int tw \<le> real_of_int (fst (slide_dimensions t)) \<and>
      0 \<le> offset_y t1 \<and>
      offset_y t1 + real_of_int th \<le> real_of_int (snd (slide_dimensions t))"
    using clamp_view_bounds[OF zt wt assms(6), of cv] unfolding ct by simp
  have ug: "update_view_grid cv g =
     (case read_region g1 (offset_x g1) (offset_y g1)
             (real_of_int gw) (real_of_int gh) (zoom g1) of
        Inl e \<Rightarrow> (g1, Raised e)
      | Inr r \<Rightarrow> finish_view_grid cv g1 r)"
    using update_view_grid_unfold[of g cv, unfolded cg fst_conv snd_conv] assms(1) zg by simp
  obtain t2 out where m: "mark_visited cv t1 = (t2, out)"
    by (cases "mark_visited cv t1")
  have f: "offset_x t2 = offset_x t1" "offset_y t2 = offset_y t1" "zoom t2 = zoom t1"
    using mark_visited_fields(1,2,3)[of cv t1] m by simp_all
  have ut: "update_view_track cv t =
     (case out of
        Raised e \<Rightarrow> (t2, Raised e)
      | _ \<Rightarrow>
          (case read_region t2 (offset_x t1) (offset_y t1)
                  (real_of_int tw) (real_of_int th) (zoom t1) of
             Inl e \<Rightarrow> (t2, Raised e)
           | Inr r \<Rightarrow> (t2\<lparr>photo := Some r\<rparr>, update_map (t2\<lparr>photo := Some r\<rparr>))))"
    using update_view_track_unfold[of t cv, unfolded ct fst_conv snd_conv m prod.case]
      assms(5) zt f
    by (cases out) simp_all
  show ?thesis
    unfolding cg ct m prod.case using bg bt ug ut f(1,2) by blast
qed

text \<open>
  Witness for C1: a grid viewer on a 20000 by 15000 image at zoom 2 with the offset
  (30000, -5), and a tracking viewer on a 300 by 200 image at zoom 1/2 with the offset
  (250, 10), both on a canvas of 800 by 600.
\<close>

theorem update_view_clamp_witness:
  "0 < fst (slide_dimensions example_grid_panned) \<and>
   0 \<le> snd (slide_dimensions example_grid_panned) \<and>
   1 / 20 \<le> zoom example_grid_panned \<and> zoom example_grid_panned \<le> 10 \<and>
   0 < fst (slide_dimensions example_flat_panned) \<and>
   0 \<le> snd (slide_dimensions example_flat_panned) \<and>
   1 / 20 \<le> zoom example_flat_panned \<and> zoom example_flat_panned \<le> 10 \<and>
   0 \<le> offset_x (fst (clamp_view (800, 600) example_grid_panned)) \<and>
   offset_x (fst (clamp_view (800, 600) example_grid_panned)) +
     real_of_int (fst (snd (clamp_view (800, 600) example_grid_panned))) \<le> 20000 \<and>
   0 \<le> offset_y (fst (clamp_view (800, 600) example_grid_panned)) \<and>
   offset_y (fst (clamp_view (800, 600) example_grid_panned)) +
     real_of_int (snd (snd (clamp_view (800, 600) example_grid_panned))) \<le> 15000 \<and>
   0 \<le> offset_x (fst (clamp_view (800, 600) example_flat_panned)) \<and>
   offset_x (fst (clamp_view (800, 600) example_flat_panned)) +
     real_of_int (fst (snd (clamp_view (800, 600) example_flat_panned))) \<le> 300 \<and>
   0 \<le> offset_y (fst (clamp_view (800, 600) example_flat_panned)) \<and>
   offset_y (fst (clamp_view (800, 600) example_flat_panned)) +
     real_of_int (snd (snd (clamp_view (800, 600) example_flat_panned))) \<le> 200"
proof -
  have g: "0 < fst (slide_dimensions example_grid_panned)"
      "0 \<le> snd (slide_dimensions example_grid_panned)"
      "1 / 20 \<le> zoom example_grid_panned" "zoom example_grid_panned \<le> 10"
    by (simp_all add: example_grid_panned_def example_grid_def WholeSlideImageViewer_def)
  have t: "0 < fst (slide_dimensions example_flat_panned)"
      "0 \<le> snd (slide_dimensions example_flat_panned)"
      "1 / 20 \<le> zoom example_flat_panned" "zoom example_flat_panned \<le> 10"
    by (simp_all add: example_flat_panned_def example_flat_def WSITrackingViewer_def)
  have dg: "slide_dimensions example_grid_panned = (20000, 15000)"
    by (simp add: example_grid_panned_def example_grid_def WholeSlideImageViewer_def)
  have dt: "slide_dimensions example_flat_panned = (300, 200)"
    by (simp add: example_flat_panned_def example_flat_def WSITrackingViewer_def)
  from update_view_clamp[OF g t, of "(800, 600)"] g t show ?thesis
    by (simp add: case_prod_beta dg dt)
qed

section \<open>Zoom steps\<close>

text \<open>
  One step in multiplies by 3/2 under the cap 10, one step out divides by 3/2 over the
  floor 1/20; iterated from 1 they give \<open>min ((3/2)^n) 10\<close> and
  \<open>max ((2/3)^n) (1/20)\<close>.
\<close>

lemma min_step:
  "min (min a 10 * (3 / 2)) 10 = min (a * (3 / 2)) (10::real)"
  by (simp add: min_def)

lemma max_step:
  "max (max a (1 / 20) / (3 / 2)) (1 / 20) = max (a / (3 / 2)) (1 / 20 :: real)"
  by (simp add: max_def)

lemma iterate_zoom_in:
  fixes f :: "'a viewer_scheme \<Rightarrow> 'a viewer_scheme"
  assumes step: "\<And>s. fst (slide_dimensions s) \<noteq> 0 \<Longrightarrow>
      zoom (f s) = min (zoom s * (3 / 2)) 10 \<and> slide_dimensions (f s) = slide_dimensions s"
      and loaded: "fst (slide_dimensions s) \<noteq> 0" and start: "zoom s = 1"
  shows "zoom ((f ^^ n) s) = min ((3 / 2) ^ n) 10 \<and>
         slide_dimensions ((f ^^ n) s) = slide_dimensions s"
proof (induction n)
  case 0
  then show ?case using start by simp
next
  case (Suc n)
  have l: "fst (slide_dimensions ((f ^^ n) s)) \<noteq> 0" using Suc loaded by simp
  have "zoom ((f ^^ Suc n) s) = min (min ((3 / 2) ^ n) 10 * (3 / 2)) 10"
    using step[OF l] Suc by simp
  also have "\<dots> = min ((3 / 2) ^ Suc n) 10" by (simp add: min_step mult.commute)
  finally show ?case using step[OF l] Suc by simp
qed

lemma iterate_zoom_out:
  fixes f :: "'a viewer_scheme \<Rightarrow> 'a viewer_scheme"
  assumes step: "\<And>s. fst (slide_dimensions s) \<noteq> 0 \<Longrightarrow>
      zoom (f s) = max (zoom s / (3 / 2)) (1 / 20) \<and> slide_dimensions (f s) = slide_dimensions s"
      and loaded: "fst (slide_dimensions s) \<noteq> 0" and start: "zoom s = 1"
  shows "zoom ((f ^^ n) s) = max ((2 / 3) ^ n) (1 / 20) \<and>
         slide_dimensions ((f ^^ n) s) = slide_dimensions s"
proof (induction n)
  case 0
  then show ?case using start by simp
next
  case (Suc n)
  have l: "fst (slide_dimensions ((f ^^ n) s)) \<noteq> 0" using Suc loaded by simp
  have "zoom ((f ^^ Suc n) s) = max (max ((2 / 3) ^ n) (1 / 20) / (3 / 2)) (1 / 20)"
    using step[OF l] Suc by simp
  also have "\<dots> = max ((2 / 3) ^ n / (3 / 2)) (1 / 20)" by (rule max_step)
  also have "\<dots> = max ((2 / 3) ^ Suc n) (1 / 20)" by simp
  finally show ?case using step[OF l] Suc by simp
qed

lemma zoom_in_saturates: "6 \<le> n \<Longrightarrow> min ((3 / 2) ^ n) (10::real) = 10"
proof -
  assume "6 \<le> n"
  then have a: "(3 / 2 :: real) ^ 6 \<le> (3 / 2) ^ n" by (intro power_increasing) simp_all
  have b: "(10::real) \<le> (3 / 2) ^ 6" by (simp add: power_divide)
  from b a have "(10::real) \<le> (3 / 2) ^ n" by (rule order_trans)
  then show ?thesis by (rule min_absorb2)
qed

lemma zoom_out_saturates: "8 \<le> n \<Longrightarrow> max ((2 / 3) ^ n) (1 / 20 :: real) = 1 / 20"
proof -
  assume "8 \<le> n"
  then have a: "(2 / 3 :: real) ^ n \<le> (2 / 3) ^ 8" by (intro power_decreasing) simp_all
  have b: "(2 / 3 :: real) ^ 8 \<le> 1 / 20" by (simp add: power_divide)
  from a b have "(2 / 3 :: real) ^ n \<le> 1 / 20" by (rule order_trans)
  then show ?thesis by (rule max_absorb2)
qed

lemma min_in_range: "(1::real) \<le> a \<Longrightarrow> 1 / 20 \<le> min a 10 \<and> min a 10 \<le> 10"
  by (simp add: min_def)

lemma max_in_range: "(a::real) \<le> 1 \<Longrightarrow> 1 / 20 \<le> max a (1 / 20) \<and> max a (1 / 20) \<le> 10"
  by (simp add: max_def)

lemma zoom_in_bounds:
  "1 / 20 \<le> min ((3 / 2) ^ n) (10::real) \<and> min ((3 / 2) ^ n) (10::real) \<le> 10"
proof -
  have "(1::real) \<le> (3 / 2) ^ n" by (rule one_le_power) simp
  then show ?thesis by (rule min_in_range)
qed

lemma zoom_out_bounds:
  "1 / 20 \<le> max ((2 / 3) ^ n) (1 / 20 :: real) \<and> max ((2 / 3) ^ n) (1 / 20 :: real) \<le> 10"
proof -
  have "(2 / 3 :: real) ^ n \<le> 1" by (rule power_le_one) simp_all
  then show ?thesis by (rule max_in_range)
qed

text \<open>
  C3. With an image loaded, \<^verbatim>\<open>zoom_in\<close> sets the zoom to \<open>min (zoom * 1.5) 10\<close> and
  \<^verbatim>\<open>zoom_out\<close> sets it to \<open>max (zoom / 1.5) 0.05\<close>, in both viewers. Hence, from a
  zoom of 1, after any number \<open>n\<close> of zoom-ins, and after any number \<open>n\<close> of zoom-outs,
  the zoom is within [0.05, 10]; from the sixth zoom-in on it is exactly 10 and from the
  eighth zoom-out on it is exactly 0.05.
\<close>

theorem zoom_steps_saturate:
  fixes g :: grid_viewer and t :: tracking_viewer
  assumes "fst (slide_dimensions g) \<noteq> 0" and "fst (slide_dimensions t) \<noteq> 0"
  shows
    "zoom (fst (zoom_in_grid cv g)) = min (zoom g * (3 / 2)) 10 \<and>
     zoom (fst (zoom_out_grid cv g)) = max (zoom g / (3 / 2)) (1 / 20) \<and>
     zoom (fst (zoom_in_track cv t)) = min (zoom t * (3 / 2)) 10 \<and>
     zoom (fst (zoom_out_track cv t)) = max (zoom t / (3 / 2)) (1 / 20) \<and>
     (zoom g = 1 \<longrightarrow>
        1 / 20 \<le> zoom (((\<lambda>s. fst (zoom_in_grid cv s)) ^^ n) g) \<and>
        zoom (((\<lambda>s. fst (zoom_in_grid cv s)) ^^ n) g) \<le> 10 \<and>
        (6 \<le> n \<longrightarrow> zoom (((\<lambda>s. fst (zoom_in_grid cv s)) ^^ n) g) = 10) \<and>
        1 / 20 \<le> zoom (((\<lambda>s. fst (zoom_out_grid cv s)) ^^ n) g) \<and>
        zoom (((\<lambda>s. fst (zoom_out_grid cv s)) ^^ n) g) \<le> 10 \<and>
        (8 \<le> n \<longrightarrow> zoom (((\<lambda>s. fst (zoom_out_grid cv s)) ^^ n) g) = 1 / 20)) \<and>
     (zoom t = 1 \<longrightarrow>
        1 / 20 \<le> zoom (((\<lambda>s. fst (zoom_in_track cv s)) ^^ n) t) \<and>
        zoom (((\<lambda>s. fst (zoom_in_track cv s)) ^^ n) t) \<le> 10 \<and>
        (6 \<le> n \<longrightarrow> zoom (((\<lambda>s. fst (zoom_in_track cv s)) ^^ n) t) = 10) \<and>
        1 / 20 \<le> zoom (((\<lambda>s. fst (zoom_out_track cv s)) ^^ n) t) \<and>
        zoom (((\<lambda>s. fst (zoom_out_track cv s)) ^^ n) t) \<le> 10 \<and>
        (8 \<le> n \<longrightarrow> zoom (((\<lambda>s. fst (zoom_out_track cv s)) ^^ n) t) = 1 / 20))"
proof -
  have gi: "zoom (((\<lambda>s. fst (zoom_in_grid cv s)) ^^ n) g) = min ((3 / 2) ^ n) 10" if "zoom g = 1"
    using iterate_zoom_in[of "\<lambda>s. fst (zoom_in_grid cv s)" g n] zoom_in_grid_fields assms(1) that
    by simp
  have go: "zoom (((\<lambda>s. fst (zoom_out_grid cv s)) ^^ n) g) = max ((2 / 3) ^ n) (1 / 20)" if "zoom g = 1"
    using iterate_zoom_out[of "\<lambda>s. fst (zoom_out_grid cv s)" g n] zoom_out_grid_fields assms(1) that
    by simp
  have ti: "zoom (((\<lambda>s. fst (zoom_in_track cv s)) ^^ n) t) = min ((3 / 2) ^ n) 10" if "zoom t = 1"
    using iterate_zoom_in[of "\<lambda>s. fst (zoom_in_track cv s)" t n] zoom_in_track_fields assms(2) that
    by simp
  have to: "zoom (((\<lambda>s. fst (zoom_out_track cv s)) ^^ n) t) = max ((2 / 3) ^ n) (1 / 20)" if "zoom t = 1"
    using iterate_zoom_out[of "\<lambda>s. fst (zoom_out_track cv s)" t n] zoom_out_track_fields assms(2) that
    by simp
  show ?thesis
    using assms gi go ti to zoom_in_bounds[of n] zoom_out_bounds[of n]
      zoom_in_saturates[of n] zoom_out_saturates[of n]
    by (simp add: zoom_in_grid_fields zoom_out_grid_fields zoom_in_track_fields
          zoom_out_track_fields)
qed

text \<open>
  Witness for C3: both example viewers hold an image at zoom 1; one step gives 3/2 and
  2/3, eight steps give exactly 10 and exactly 1/20.
\<close>

theorem zoom_steps_saturate_witness:
  "fst (slide_dimensions example_grid) \<noteq> 0 \<and> fst (slide_dimensions example_flat) \<noteq> 0 \<and>
   zoom example_grid = 1 \<and> zoom example_flat = 1 \<and>
   zoom (fst (zoom_in_grid (800, 600) example_grid)) = 3 / 2 \<and>
   zoom (fst (zoom_out_grid (800, 600) example_grid)) = 2 / 3 \<and>
   zoom (fst (zoom_in_track (800, 600) example_flat)) = 3 / 2 \<and>
   zoom (fst (zoom_out_track (800, 600) example_flat)) = 2 / 3 \<and>
   zoom (((\<lambda>s. fst (zoom_in_grid (800, 600) s)) ^^ 8) example_grid) = 10 \<and>
   zoom (((\<lambda>s. fst (zoom_out_grid (800, 600) s)) ^^ 8) example_grid) = 1 / 20 \<and>
   zoom (((\<lambda>s. fst (zoom_in_track (800, 600) s)) ^^ 8) example_flat) = 10 \<and>
   zoom (((\<lambda>s. fst (zoom_out_track (800, 600) s)) ^^ 8) example_flat) = 1 / 20"
proof -
  have g: "fst (slide_dimensions example_grid) \<noteq> 0" "zoom example_grid = 1"
    by (simp_all add: example_grid_def WholeSlideImageViewer_def)
  have t: "fst (slide_dimensions example_flat) \<noteq> 0" "zoom example_flat = 1"
    by (simp_all add: example_flat_def WSITrackingViewer_def)
  from zoom_steps_saturate[OF g(1) t(1), of "(800, 600)" 8] g t show ?thesis
    by simp
qed

section \<open>Sector navigation\<close>

lemma goto_sector_fst:
  "fst (case x of
          (s1, Raised e) \<Rightarrow> if e = ValueError then (s1, Shown Invalid_values) else (s1, Raised e)
        | (s1, out) \<Rightarrow> (s1, out)) = fst x"
  by (cases x) (simp split: outcome.split)

text \<open>
  C4. With an image loaded, a non-zero zoom and a sector \<open>(col, row)\<close> with
  \<open>0 \<le> col < max_cols\<close> and \<open>0 \<le> row < max_rows\<close>, \<^verbatim>\<open>goto_sector\<close> sets the
  offset to \<open>col * grid_size + grid_size / 2 - (canvas / zoom) / 2\<close> on each axis, so
  that this offset plus half the canvas extent in image pixels is the centre
  \<open>col * grid_size + grid_size / 2\<close> of the cell, and then refreshes the view from that
  state: the offset left behind is the one set, clamped to \<open>[0, image - view]\<close>.
\<close>

theorem goto_sector_centres:
  assumes "fst (slide_dimensions s) \<noteq> 0"
      and "0 \<le> col" and "col < max_cols s" and "0 \<le> row" and "row < max_rows s"
      and "zoom s \<noteq> 0"
  shows
    "(real_of_int (col * grid_size s) + real_of_int (grid_size s) / 2
        - real_of_int (max (fst cv) 1) / zoom s / 2)
       + real_of_int (max (fst cv) 1) / zoom s / 2
       = real_of_int (col * grid_size s) + real_of_int (grid_size s) / 2 \<and>
     (real_of_int (row * grid_size s) + real_of_int (grid_size s) / 2
        - real_of_int (max (snd cv) 1) / zoom s / 2)
       + real_of_int (max (snd cv) 1) / zoom s / 2
       = real_of_int (row * grid_size s) + real_of_int (grid_size s) / 2 \<and>
     fst (goto_sector cv (Some col) (Some row) s) =
       fst (update_view_grid cv
              (s\<lparr>offset_x := real_of_int (col * grid_size s) + real_of_int (grid_size s) / 2
                               - real_of_int (max (fst cv) 1) / zoom s / 2,
                 offset_y := real_of_int (row * grid_size s) + real_of_int (grid_size s) / 2
                               - real_of_int (max (snd cv) 1) / zoom s / 2\<rparr>)) \<and>
     offset_x (fst (goto_sector cv (Some col) (Some row) s)) =
       max 0 (min (real_of_int (col * grid_size s) + real_of_int (grid_size s) / 2
                     - real_of_int (max (fst cv) 1) / zoom s / 2)
                  (real_of_int (fst (slide_dimensions s)
                     - min (py_int (real_of_int (max (fst cv) 1) / zoom s))
                           (fst (slide_dimensions s))))) \<and>
     offset_y (fst (goto_sector cv (Some col) (Some row) s)) =
       max 0 (min (real_of_int (row * grid_size s) + real_of_int (grid_size s) / 2
                     - real_of_int (max (snd cv) 1) / zoom s / 2)
                  (real_of_int (snd (slide_dimensions s)
                     - min (py_int (real_of_int (max (snd cv) 1) / zoom s))
                           (snd (slide_dimensions s)))))"
proof -
  let ?s' = "s\<lparr>offset_x := real_of_int (col * grid_size s) + real_of_int (grid_size s) / 2
                               - real_of_int (max (fst cv) 1) / zoom s / 2,
                 offset_y := real_of_int (row * grid_size s) + real_of_int (grid_size s) / 2
                               - real_of_int (max (snd cv) 1) / zoom s / 2\<rparr>"
  have go: "fst (goto_sector cv (Some col) (Some row) s) = fst (update_view_grid cv ?s')"
    using assms by (simp add: goto_sector_def Let_def goto_sector_fst)
  have l: "fst (slide_dimensions ?s') \<noteq> 0" "zoom ?s' \<noteq> 0" using assms by simp_all
  have ox: "offset_x (fst (update_view_grid cv ?s')) = offset_x (fst (clamp_view cv ?s'))"
    and oy: "offset_y (fst (update_view_grid cv ?s')) = offset_y (fst (clamp_view cv ?s'))"
    using update_view_grid_offset[OF l, of cv] by simp_all
  show ?thesis
    unfolding go ox oy
    by (simp add: clamp_view_offset_x clamp_view_offset_y clamp_view_w clamp_view_h)
qed

text \<open>
  Witness for C4: on the 20000 by 15000 image with grid size 5000 and a canvas of 800 by
  600, sector (2, 1) at zoom 1 has its centre at (12500, 7500) and the offset becomes
  (12100, 7200), unclamped; sector (3, 2) at zoom 1/20 is near the edge and the offset is
  clamped to (4000, 3000).
\<close>

theorem goto_sector_centres_witness:
  "fst (slide_dimensions example_grid) \<noteq> 0 \<and>
   (0::int) \<le> 2 \<and> 2 < max_cols example_grid \<and> (0::int) \<le> 1 \<and> 1 < max_rows example_grid \<and>
   zoom example_grid \<noteq> 0 \<and>
   offset_x (fst (goto_sector (800, 600) (Some 2) (Some 1) example_grid)) = 12100 \<and>
   offset_y (fst (goto_sector (800, 600) (Some 2) (Some 1) example_grid)) = 7200 \<and>
   offset_x (fst (goto_sector (800, 600) (Some 3) (Some 2) (example_grid\<lparr>zoom := 1 / 20\<rparr>))) = 4000 \<and>
   offset_y (fst (goto_sector (800, 600) (Some 3) (Some 2) (example_grid\<lparr>zoom := 1 / 20\<rparr>))) = 3000"
proof -
  have h: "fst (slide_dimensions example_grid) \<noteq> 0" "(0::int) \<le> 2" "2 < max_cols example_grid"
      "(0::int) \<le> 1" "1 < max_rows example_grid" "zoom example_grid \<noteq> 0"
    by (simp_all add: example_grid_def WholeSlideImageViewer_def)
  have k: "fst (slide_dimensions (example_grid\<lparr>zoom := 1 / 20\<rparr>)) \<noteq> 0" "(0::int) \<le> 3"
      "3 < max_cols (example_grid\<lparr>zoom := 1 / 20\<rparr>)"
      "(0::int) \<le> 2" "2 < max_rows (example_grid\<lparr>zoom := 1 / 20\<rparr>)"
      "zoom (example_grid\<lparr>zoom := 1 / 20\<rparr>) \<noteq> 0"
    by (simp_all add: example_grid_def WholeSlideImageViewer_def)
  have a: "offset_x (fst (goto_sector (800, 600) (Some 2) (Some 1) example_grid)) = 12100"
      "offset_y (fst (goto_sector (800, 600) (Some 2) (Some 1) example_grid)) = 7200"
    using goto_sector_centres[OF h, of "(800, 600)", THEN conjunct2, THEN conjunct2, THEN conjunct2]
    by (simp_all add: example_grid_def WholeSlideImageViewer_def py_int_def)
  have b: "offset_x (fst (goto_sector (800, 600) (Some 3) (Some 2) (example_grid\<lparr>zoom := 1 / 20\<rparr>))) = 4000"
      "offset_y (fst (goto_sector (800, 600) (Some 3) (Some 2) (example_grid\<lparr>zoom := 1 / 20\<rparr>))) = 3000"
    using goto_sector_centres[OF k, of "(800, 600)", THEN conjunct2, THEN conjunct2, THEN conjunct2]
    by (simp_all add: example_grid_def WholeSlideImageViewer_def py_int_def)
  from h a b show ?thesis by simp
qed

text \<open>
  C5. With an image loaded, \<^verbatim>\<open>goto_sector\<close> with a column or a row outside
  \<open>[0, max_cols) \<times> [0, max_rows)\<close> shows the out-of-bounds error and leaves the whole
  state as it was; and when the column entry or the row entry is not numeric it shows
  the invalid-values error and leaves the whole state as it was.
\<close>

theorem goto_sector_rejects:
  assumes "fst (slide_dimensions s) \<noteq> 0"
  shows
    "(col < 0 \<or> max_cols s \<le> col \<or> row < 0 \<or> max_rows s \<le> row \<longrightarrow>
        goto_sector cv (Some col) (Some row) s =
          (s, Shown (Out_of_bounds (max_cols s - 1) (max_rows s - 1)))) \<and>
     goto_sector cv None row_entry s = (s, Shown Invalid_values) \<and>
     goto_sector cv (Some col) None s = (s, Shown Invalid_values)"
  using assms by (simp add: goto_sector_def)

text \<open>
  Witness for C5: on the example grid viewer (four columns, three rows) column 4 and row
  -1 are rejected, and so is a non-numeric column or row; the state is unchanged.
\<close>

theorem goto_sector_rejects_witness:
  "fst (slide_dimensions example_grid) \<noteq> 0 \<and>
   goto_sector (800, 600) (Some 4) (Some 0) example_grid =
     (example_grid, Shown (Out_of_bounds 3 2)) \<and>
   goto_sector (800, 600) (Some 1) (Some (- 1)) example_grid =
     (example_grid, Shown (Out_of_bounds 3 2)) \<and>
   goto_sector (800, 600) None (Some 0) example_grid = (example_grid, Shown Invalid_values) \<and>
   goto_sector (800, 600) (Some 1) None example_grid = (example_grid, Shown Invalid_values)"
proof -
  have h: "fst (slide_dimensions example_grid) \<noteq> 0"
    by (simp add: example_grid_def WholeSlideImageViewer_def)
  have m: "max_cols example_grid = 4" "max_rows example_grid = 3"
    by (simp_all add: example_grid_def WholeSlideImageViewer_def)
  from goto_sector_rejects[OF h, of 4 0 "(800, 600)" "Some 0"]
       goto_sector_rejects[OF h, of 1 "- 1" "(800, 600)" "Some 0"] h m
  show ?thesis by simp
qed

section \<open>Region reads\<close>

text \<open>
  C7 (as amended). A region read of a pyramidal source (non-empty level list with no zero
  downsample, an open slide, a non-zero zoom) returns, and rescales to exactly
  \<open>int (width * zoom)\<close> by \<open>int (height * zoom)\<close> pixels, where \<open>int\<close> truncates
  towards zero; a region read of a flat image returns, and rescales to
  \<open>int ((min (x + width) imgW - x) * zoom)\<close> by \<open>int ((min (y + height) imgH - y) * zoom)\<close>.
  The products are truncated, not rounded.
\<close>

theorem read_region_target:
  "(use_openslide s \<and> level_downsamples s \<noteq> [] \<and> z \<noteq> 0 \<and> slide s \<noteq> None \<and>
    0 \<notin> set (level_downsamples s) \<longrightarrow>
      (\<exists>r. read_region s x y width height z = Inr r \<and>
           target_size r = (py_int (width * z), py_int (height * z)))) \<and>
   (\<not> use_openslide s \<and> image_pil s = Some (image_width, image_height) \<longrightarrow>
      (\<exists>r. read_region s x y width height z = Inr r \<and>
           target_size r =
             (py_int ((min (x + width) (real_of_int image_width) - x) * z),
              py_int ((min (y + height) (real_of_int image_height) - y) * z))))"
proof (intro conjI impI)
  assume a: "use_openslide s \<and> level_downsamples s \<noteq> [] \<and> z \<noteq> 0 \<and> slide s \<noteq> None \<and>
    0 \<notin> set (level_downsamples s)"
  let ?k = "best_level_scan (1 / z) (level_downsamples s) 0 0 \<bar>level_downsamples s ! 0 - 1 / z\<bar>"
  have g: "get_best_level s z = Inr ?k"
    using a by (intro get_best_level_pyramidal) simp_all
  have k: "?k < length (level_downsamples s)"
    using best_level_scan_first_min[of "level_downsamples s" "1 / z"] a by simp
  then have "level_downsamples s ! ?k \<in> set (level_downsamples s)" by (rule nth_mem)
  then have nz: "level_downsamples s ! ?k \<noteq> 0" using a by metis
  obtain sl where sl: "slide s = Some sl" using a by auto
  show "\<exists>r. read_region s x y width height z = Inr r \<and>
           target_size r = (py_int (width * z), py_int (height * z))"
    using a g k nz sl by (simp add: read_region_def Let_def)
next
  assume "\<not> use_openslide s \<and> image_pil s = Some (image_width, image_height)"
  then show "\<exists>r. read_region s x y width height z = Inr r \<and>
           target_size r =
             (py_int ((min (x + width) (real_of_int image_width) - x) * z),
              py_int ((min (y + height) (real_of_int image_height) - y) * z))"
    by (simp add: read_region_def Let_def)
qed

text \<open>
  Witness for C7: on the example pyramid a read of 533 by 400 pixels at zoom 3/2 is
  rescaled to 799 by 600; on the flat 300 by 200 image a read of 100 by 100 pixels at
  (250, 0) and zoom 2 is clipped to 50 by 100 pixels and rescaled to 100 by 200.
\<close>

theorem read_region_target_witness:
  "(\<exists>r. read_region example_pyramid 0 0 533 400 (3 / 2) = Inr r \<and> target_size r = (799, 600)) \<and>
   (\<exists>r. read_region example_flat 250 0 100 100 2 = Inr r \<and> target_size r = (100, 200))"
proof -
  have a: "\<exists>r. read_region example_pyramid 0 0 533 400 (3 / 2) = Inr r \<and> target_size r = (799, 600)"
    using read_region_target[of example_pyramid "3 / 2" 0 0 533 400, THEN conjunct1]
    by (simp add: example_pyramid_def WSITrackingViewer_def py_int_def)
  have b: "\<exists>r. read_region example_flat 250 0 100 100 2 = Inr r \<and> target_size r = (100, 200)"
    using read_region_target[of example_flat 2 250 0 100 100 300 200, THEN conjunct2]
    by (simp add: example_flat_def WSITrackingViewer_def py_int_def)
  from a b show ?thesis by (rule conjI)
qed

text \<open>
  Counterexample for C7 as stated: a canvas 800 pixels wide at zoom 3/2 asks for
  \<open>int (800 / 1.5) = 533\<close> pixels; the read is rescaled to a width of
  \<open>int (799.5) = 799\<close>, while \<open>round (533 * 1.5)\<close> is 800.
\<close>

theorem read_region_round_counterexample:
  "read_region example_pyramid 0 0 533 400 (3 / 2) =
     Inr (Slide_read (0, 0) 0 (533, 400) (799, 600)) \<and>
   py_round (533 * (3 / 2)) = 800"
  by (simp add: read_region_def get_best_level_def example_pyramid_def WSITrackingViewer_def
        py_int_def py_round_def Let_def)

section \<open>Tracking\<close>

text \<open>
  \<^verbatim>\<open>min\<close> with a key returns the element at the first index whose key is minimal.
\<close>

lemma min_key_scan_inv:
  fixes key :: "'a \<Rightarrow> 'b::linorder"
  shows "all = pre @ rest \<Longrightarrow> bi < length pre \<Longrightarrow> best = all ! bi \<Longrightarrow>
   (\<forall>j<length pre. key best \<le> key (all ! j)) \<Longrightarrow> (\<forall>j<bi. key best < key (all ! j)) \<Longrightarrow>
   \<exists>i<length all. min_key_scan key best rest = all ! i \<and>
     (\<forall>j<length all. key (all ! i) \<le> key (all ! j)) \<and>
     (\<forall>j<i. key (all ! i) < key (all ! j))"
proof (induction rest arbitrary: pre bi best)
  case Nil
  then show ?case by auto
next
  case (Cons x rest)
  have x: "x = all ! length pre" using Cons.prems(1) by simp
  have split: "all = (pre @ [x]) @ rest" using Cons.prems(1) by simp
  have lt: "length pre < length (pre @ [x])" by simp
  have bi: "bi < length (pre @ [x])" using Cons.prems(2) by simp
  show ?case
  proof (cases "key x < key best")
    case True
    have a: "\<forall>j<length (pre @ [x]). key x \<le> key (all ! j)"
    proof (intro allI impI)
      fix j assume "j < length (pre @ [x])"
      then consider "j < length pre" | "j = length pre" by fastforce
      then show "key x \<le> key (all ! j)"
      proof cases
        case 1 then show ?thesis using Cons.prems(4) True by fastforce
      next
        case 2 then show ?thesis using x by simp
      qed
    qed
    have b: "\<forall>j<length pre. key x < key (all ! j)"
      using Cons.prems(4) True by fastforce
    show ?thesis
      using Cons.IH[OF split lt x a b] True by (simp only: min_key_scan.simps if_True)
  next
    case False
    have a: "\<forall>j<length (pre @ [x]). key best \<le> key (all ! j)"
    proof (intro allI impI)
      fix j assume "j < length (pre @ [x])"
      then consider "j < length pre" | "j = length pre" by fastforce
      then show "key best \<le> key (all ! j)"
      proof cases
        case 1 then show ?thesis using Cons.prems(4) by simp
      next
        case 2 then show ?thesis using x False by simp
      qed
    qed
    show ?thesis
      using Cons.IH[OF split bi Cons.prems(3) a Cons.prems(5)] False
      by (simp only: min_key_scan.simps if_False)
  qed
qed

lemma py_min_key_first:
  fixes key :: "'a \<Rightarrow> 'b::linorder"
  assumes "xs \<noteq> []"
  shows "\<exists>i<length xs. py_min_key key xs = Inr (xs ! i) \<and>
     (\<forall>j<length xs. key (xs ! i) \<le> key (xs ! j)) \<and>
     (\<forall>j<i. key (xs ! i) < key (xs ! j))"
proof -
  obtain x rest where xs: "xs = x # rest" using assms by (cases xs) auto
  have p1: "xs = [x] @ rest" using xs by simp
  have p2: "(0::nat) < length [x]" by simp
  have p3: "x = xs ! 0" using xs by simp
  have p4: "\<forall>j<length [x]. key x \<le> key (xs ! j)" using xs by simp
  have p5: "\<forall>j<(0::nat). key x < key (xs ! j)" by simp
  have k: "py_min_key key xs = Inr (min_key_scan key x rest)"
    by (simp add: py_min_key_def xs)
  show ?thesis
    unfolding k using min_key_scan_inv[OF p1 p2 p3 p4 p5] by blast
qed

lemma mark_visited_marks:
  assumes "fst (slide_dimensions s) \<noteq> 0" and "zoom s \<noteq> 0" and "grid_cell_size s \<noteq> 0"
      and "get_tracking_level s (py_int (zoom s * 100)) = Inr b"
      and "tracking_grids s b = Some (Some a)"
  shows "mark_visited cv s =
     (case visit_rect cv s a of
        (grid_x1, grid_y1, grid_x2, grid_y2) \<Rightarrow>
          (s\<lparr>tracking_grids :=
               (tracking_grids s)(b \<mapsto>
                  Some (set_true a (grid_y1, grid_y2 + 1) (grid_x1, grid_x2 + 1)))\<rparr>,
           Done))"
  using assms by (simp add: mark_visited_def Let_def)

text \<open>
  C6 (as amended). With an image loaded, a non-zero zoom and an array allocated for
  every bucket, \<^verbatim>\<open>mark_visited\<close> computes the zoom percentage as
  \<open>int (zoom * 100)\<close>, truncated towards zero and not rounded, and selects the bucket at
  the first index of the bucket list whose absolute difference from that percentage is
  minimal, so that a tie goes to the bucket declared earlier; it sets cells of that
  bucket's array and of no other, and returns. With the buckets [10, 40, 60, 80] a
  percentage of 42 selects bucket 40, and a percentage of 50, equidistant from 40 and 60,
  selects bucket 40.
\<close>

theorem mark_visited_bucket:
  assumes "fst (slide_dimensions s) \<noteq> 0" and "zoom s \<noteq> 0" and "grid_cell_size s \<noteq> 0"
      and "tracking_levels s \<noteq> []"
      and "\<forall>b\<in>set (tracking_levels s). \<exists>a. tracking_grids s b = Some (Some a)"
  shows
    "\<exists>i a. i < length (tracking_levels s) \<and>
       get_tracking_level s (py_int (zoom s * 100)) = Inr (tracking_levels s ! i) \<and>
       (\<forall>j<length (tracking_levels s).
          \<bar>tracking_levels s ! i - py_int (zoom s * 100)\<bar>
            \<le> \<bar>tracking_levels s ! j - py_int (zoom s * 100)\<bar>) \<and>
       (\<forall>j<i. \<bar>tracking_levels s ! i - py_int (zoom s * 100)\<bar>
            < \<bar>tracking_levels s ! j - py_int (zoom s * 100)\<bar>) \<and>
       tracking_grids s (tracking_levels s ! i) = Some (Some a) \<and>
       mark_visited cv s =
         (case visit_rect cv s a of
            (grid_x1, grid_y1, grid_x2, grid_y2) \<Rightarrow>
              (s\<lparr>tracking_grids :=
                   (tracking_grids s)(tracking_levels s ! i \<mapsto>
                      Some (set_true a (grid_y1, grid_y2 + 1) (grid_x1, grid_x2 + 1)))\<rparr>,
               Done)) \<and>
       (tracking_levels s = [10, 40, 60, 80] \<and> py_int (zoom s * 100) = 42
          \<longrightarrow> tracking_levels s ! i = 40) \<and>
       (tracking_levels s = [10, 40, 60, 80] \<and> py_int (zoom s * 100) = 50
          \<longrightarrow> tracking_levels s ! i = 40)"
proof -
  let ?p = "py_int (zoom s * 100)"
  let ?ls = "tracking_levels s"
  obtain i where i: "i < length ?ls"
      and sel: "get_tracking_level s ?p = Inr (?ls ! i)"
      and least: "\<forall>j<length ?ls. \<bar>?ls ! i - ?p\<bar> \<le> \<bar>?ls ! j - ?p\<bar>"
      and first: "\<forall>j<i. \<bar>?ls ! i - ?p\<bar> < \<bar>?ls ! j - ?p\<bar>"
    using py_min_key_first[OF assms(4), of "\<lambda>x. \<bar>x - ?p\<bar>"]
    unfolding get_tracking_level_def by blast
  have "?ls ! i \<in> set ?ls" using i by (rule nth_mem)
  then obtain a where a: "tracking_grids s (?ls ! i) = Some (Some a)" using assms(5) by blast
  note mark = mark_visited_marks[OF assms(1,2,3) sel a, of cv]
  have e42: "?ls ! i = 40" if "?ls = [10, 40, 60, 80] \<and> ?p = 42"
    using sel that by (simp add: get_tracking_level_def py_min_key_def)
  have e50: "?ls ! i = 40" if "?ls = [10, 40, 60, 80] \<and> ?p = 50"
    using sel that by (simp add: get_tracking_level_def py_min_key_def)
  show ?thesis
    using i sel least first a mark e42 e50 by blast
qed

text \<open>
  Witness for C6: the tracking viewer on the 300 by 200 image at zoom 0.42 and at zoom
  0.5; the percentages are 42 and 50 and both select bucket 40.
\<close>

theorem mark_visited_bucket_witness:
  "fst (slide_dimensions (example_flat\<lparr>zoom := 42 / 100\<rparr>)) \<noteq> 0 \<and>
   zoom (example_flat\<lparr>zoom := 42 / 100\<rparr>) \<noteq> 0 \<and>
   grid_cell_size (example_flat\<lparr>zoom := 42 / 100\<rparr>) \<noteq> 0 \<and>
   tracking_levels (example_flat\<lparr>zoom := 42 / 100\<rparr>) = [10, 40, 60, 80] \<and>
   py_int (42 / 100 * 100) = 42 \<and> py_int (1 / 2 * 100) = 50 \<and>
   get_tracking_level (example_flat\<lparr>zoom := 42 / 100\<rparr>) 42 = Inr 40 \<and>
   get_tracking_level (example_flat\<lparr>zoom := 1 / 2\<rparr>) 50 = Inr 40 \<and>
   snd (mark_visited (800, 600) (example_flat\<lparr>zoom := 42 / 100\<rparr>)) = Done \<and>
   snd (mark_visited (800, 600) (example_flat\<lparr>zoom := 1 / 2\<rparr>)) = Done"
proof -
  let ?a = "example_flat\<lparr>zoom := 42 / 100\<rparr>" and ?b = "example_flat\<lparr>zoom := 1 / 2\<rparr>"
  have ha: "fst (slide_dimensions ?a) \<noteq> 0" "zoom ?a \<noteq> 0" "grid_cell_size ?a \<noteq> 0"
      "tracking_levels ?a \<noteq> []"
      "\<forall>b\<in>set (tracking_levels ?a). \<exists>a. tracking_grids ?a b = Some (Some a)"
    by (simp_all add: example_flat_def WSITrackingViewer_def)
  have hb: "fst (slide_dimensions ?b) \<noteq> 0" "zoom ?b \<noteq> 0" "grid_cell_size ?b \<noteq> 0"
      "tracking_levels ?b \<noteq> []"
      "\<forall>b\<in>set (tracking_levels ?b). \<exists>a. tracking_grids ?b b = Some (Some a)"
    by (simp_all add: example_flat_def WSITrackingViewer_def)
  have la: "tracking_levels ?a = [10, 40, 60, 80]" and lb: "tracking_levels ?b = [10, 40, 60, 80]"
    by (simp_all add: example_flat_def WSITrackingViewer_def)
  have pa: "py_int (zoom ?a * 100) = 42" and pb: "py_int (zoom ?b * 100) = 50"
    by (simp_all add: py_int_def)
  have p: "py_int (42 / 100 * 100) = 42" "py_int (1 / 2 * 100) = 50"
    by (simp_all add: py_int_def)
  from mark_visited_bucket[OF ha, of "(800, 600)"] la pa
  have ra: "get_tracking_level ?a 42 = Inr 40 \<and> snd (mark_visited (800, 600) ?a) = Done"
    by (auto simp: case_prod_beta)
  from mark_visited_bucket[OF hb, of "(800, 600)"] lb pb
  have rb: "get_tracking_level ?b 50 = Inr 40 \<and> snd (mark_visited (800, 600) ?b) = Done"
    by (auto simp: case_prod_beta)
  from ha la p ra rb show ?thesis by simp
qed

text \<open>
  Counterexample for C6 as stated: the zoom 81/160 = 0.50625 is reached from the 10%
  shortcut by four zoom-ins (0.1 * 1.5^4). Then \<open>zoom * 100 = 50.625\<close>, which
  \<^verbatim>\<open>int\<close> truncates to 50 and \<^verbatim>\<open>round\<close> takes to 51. The percentage 50 is a tie
  between 40 and 60 and selects 40; the percentage 51 would select 60. The visit is marked
  in the array of bucket 40 and the array of bucket 60 stays all false.
\<close>

theorem mark_visited_round_counterexample:
  "py_int (81 / 160 * 100) = 50 \<and> py_round (81 / 160 * 100) = 51 \<and>
   get_tracking_level example_flat 50 = Inr 40 \<and>
   get_tracking_level example_flat 51 = Inr 60 \<and>
   tracking_grids (fst (mark_visited (800, 600) (example_flat\<lparr>zoom := 81 / 160\<rparr>))) 60 =
     Some (Some \<lparr>shape = (3, 4), cells = replicate 3 (replicate 4 False)\<rparr>) \<and>
   tracking_grids (fst (mark_visited (800, 600) (example_flat\<lparr>zoom := 81 / 160\<rparr>))) 40 =
     Some (Some \<lparr>shape = (3, 4), cells = replicate 3 (replicate 4 True)\<rparr>)"
  by (simp add: mark_visited_def get_tracking_level_def py_min_key_def visit_rect_def
        set_true_def py_slice_def py_slice_bound_def example_flat_def WSITrackingViewer_def
        py_int_def py_round_def Let_def eval_nat_numeral enumerate_eq_zip)

section \<open>Allocation of the tracking grids\<close>

lemma alloc_loop_ok:
  assumes "0 \<le> fst sh" and "0 \<le> snd sh"
  shows "alloc_loop ps sh m =
     Inr (\<lambda>p. if p \<in> set ps
               then Some (Some \<lparr>shape = sh,
                      cells = replicate (nat (fst sh)) (replicate (nat (snd sh)) False)\<rparr>)
               else m p)"
proof (induction ps arbitrary: m)
  case Nil
  then show ?case by simp
next
  case (Cons p ps)
  have z: "np_zeros sh = Inr \<lparr>shape = sh,
      cells = replicate (nat (fst sh)) (replicate (nat (snd sh)) False)\<rparr>"
    using assms by (simp add: np_zeros_def)
  show ?case
    by (simp add: z Cons.IH) (rule ext, simp)
qed

lemma floor_plus_one_ceiling:
  fixes w c :: int
  assumes "0 < c"
  shows "w div c + 1 = \<lceil>real_of_int w / real_of_int c\<rceil> + (if c dvd w then 1 else 0)"
proof -
  have c: "c \<noteq> 0" using assms by simp
  have "\<lceil>real_of_int w / real_of_int c\<rceil> = - (- w div c)" by (rule ceiling_divide_eq_div)
  also have "\<dots> = (if w mod c = 0 then w div c else w div c + 1)"
    by (simp add: zdiv_zminus1_eq_if[OF c])
  finally show ?thesis by (simp add: dvd_eq_mod_eq_0)
qed

text \<open>
  C9 (as amended). For an image of non-negative width and height and a positive tracking
  cell size, \<^verbatim>\<open>initialize_tracking\<close> returns and gives every bucket of the bucket
  list an all-false array of \<open>height div cell + 1\<close> rows by \<open>width div cell + 1\<close>
  columns, leaving every other field and every other key as it was. That size is the
  ceiling of dimension / cell when the cell size does not divide the dimension, and one
  more than the ceiling when it does.
\<close>

theorem initialize_tracking_shape:
  assumes "0 \<le> fst (slide_dimensions s)" and "0 \<le> snd (slide_dimensions s)"
      and "0 < grid_cell_size s"
  shows
    "\<exists>grids. initialize_tracking s = Inr (s\<lparr>tracking_grids := grids\<rparr>) \<and>
       (\<forall>p\<in>set (tracking_levels s).
          grids p =
            Some (Some
              \<lparr>shape = (snd (slide_dimensions s) div grid_cell_size s + 1,
                        fst (slide_dimensions s) div grid_cell_size s + 1),
               cells =
                 replicate (nat (snd (slide_dimensions s) div grid_cell_size s + 1))
                   (replicate (nat (fst (slide_dimensions s) div grid_cell_size s + 1))
                      False)\<rparr>)) \<and>
       (\<forall>p. p \<notin> set (tracking_levels s) \<longrightarrow> grids p = tracking_grids s p) \<and>
       fst (slide_dimensions s) div grid_cell_size s + 1 =
         \<lceil>real_of_int (fst (slide_dimensions s)) / real_of_int (grid_cell_size s)\<rceil>
           + (if grid_cell_size s dvd fst (slide_dimensions s) then 1 else 0) \<and>
       snd (slide_dimensions s) div grid_cell_size s + 1 =
         \<lceil>real_of_int (snd (slide_dimensions s)) / real_of_int (grid_cell_size s)\<rceil>
           + (if grid_cell_size s dvd snd (slide_dimensions s) then 1 else 0)"
proof -
  let ?c = "grid_cell_size s"
  let ?w = "fst (slide_dimensions s)" and ?h = "snd (slide_dimensions s)"
  let ?sh = "(?h div ?c + 1, ?w div ?c + 1)"
  have gw: "0 \<le> ?w div ?c" using assms(1,3) by (simp add: pos_imp_zdiv_nonneg_iff)
  have gh: "0 \<le> ?h div ?c" using assms(2,3) by (simp add: pos_imp_zdiv_nonneg_iff)
  have sh: "0 \<le> fst ?sh" "0 \<le> snd ?sh" using gw gh by simp_all
  have init: "initialize_tracking s =
      Inr (s\<lparr>tracking_grids :=
             (\<lambda>p. if p \<in> set (tracking_levels s)
                   then Some (Some \<lparr>shape = ?sh,
                          cells = replicate (nat (fst ?sh)) (replicate (nat (snd ?sh)) False)\<rparr>)
                   else tracking_grids s p)\<rparr>)"
    using assms(3) by (simp add: initialize_tracking_def Let_def alloc_loop_ok[OF sh])
  show ?thesis
    using init floor_plus_one_ceiling[OF assms(3), of ?w] floor_plus_one_ceiling[OF assms(3), of ?h]
    by (intro exI[of _ "\<lambda>p. if p \<in> set (tracking_levels s)
                   then Some (Some \<lparr>shape = ?sh,
                          cells = replicate (nat (fst ?sh)) (replicate (nat (snd ?sh)) False)\<rparr>)
                   else tracking_grids s p"]) simp
qed

text \<open>
  Witness for C9: for the 200 by 100 image and the cell size 100 each of the buckets 10,
  40, 60 and 80 gets an all-false array of 2 rows by 3 columns.
\<close>

theorem initialize_tracking_shape_witness:
  "0 \<le> fst (slide_dimensions example_opened) \<and> 0 \<le> snd (slide_dimensions example_opened) \<and>
   0 < grid_cell_size example_opened \<and>
   tracking_levels example_opened = [10, 40, 60, 80] \<and>
   (\<exists>grids. initialize_tracking example_opened = Inr (example_opened\<lparr>tracking_grids := grids\<rparr>) \<and>
      grids 10 = Some (Some \<lparr>shape = (2, 3), cells = replicate 2 (replicate 3 False)\<rparr>) \<and>
      grids 40 = Some (Some \<lparr>shape = (2, 3), cells = replicate 2 (replicate 3 False)\<rparr>) \<and>
      grids 60 = Some (Some \<lparr>shape = (2, 3), cells = replicate 2 (replicate 3 False)\<rparr>) \<and>
      grids 80 = Some (Some \<lparr>shape = (2, 3), cells = replicate 2 (replicate 3 False)\<rparr>))"
proof -
  have h: "0 \<le> fst (slide_dimensions example_opened)" "0 \<le> snd (slide_dimensions example_opened)"
      "0 < grid_cell_size example_opened"
    by (simp_all add: example_opened_def WSITrackingViewer_def)
  have l: "tracking_levels example_opened = [10, 40, 60, 80]"
      "slide_dimensions example_opened = (200, 100)" "grid_cell_size example_opened = 100"
    by (simp_all add: example_opened_def WSITrackingViewer_def)
  from initialize_tracking_shape[OF h] obtain grids where
      g: "initialize_tracking example_opened = Inr (example_opened\<lparr>tracking_grids := grids\<rparr>)"
      and a: "\<forall>p\<in>set (tracking_levels example_opened).
          grids p =
            Some (Some
              \<lparr>shape = (snd (slide_dimensions example_opened) div grid_cell_size example_opened + 1,
                        fst (slide_dimensions example_opened) div grid_cell_size example_opened + 1),
               cells =
                 replicate (nat (snd (slide_dimensions example_opened) div grid_cell_size example_opened + 1))
                   (replicate (nat (fst (slide_dimensions example_opened) div grid_cell_size example_opened + 1))
                      False)\<rparr>)"
    by blast
  have "grids 10 = Some (Some \<lparr>shape = (2, 3), cells = replicate 2 (replicate 3 False)\<rparr>) \<and>
      grids 40 = Some (Some \<lparr>shape = (2, 3), cells = replicate 2 (replicate 3 False)\<rparr>) \<and>
      grids 60 = Some (Some \<lparr>shape = (2, 3), cells = replicate 2 (replicate 3 False)\<rparr>) \<and>
      grids 80 = Some (Some \<lparr>shape = (2, 3), cells = replicate 2 (replicate 3 False)\<rparr>)"
    using a by (simp add: l)
  with g h l show ?thesis by blast
qed

text \<open>
  Counterexample for C9 as stated: for the 200 by 100 image the arrays have 2 rows and
  3 columns, while the ceilings of 100 / 100 and 200 / 100 are 1 and 2.
\<close>

theorem initialize_tracking_ceil_counterexample:
  "(case initialize_tracking example_opened of
      Inl e \<Rightarrow> None
    | Inr s \<Rightarrow> map_option (map_option shape) (tracking_grids s 10)) = Some (Some (2, 3)) \<and>
   (\<lceil>100 / 100 :: real\<rceil>, \<lceil>200 / 100 :: real\<rceil>) = (1, 2)"
  by (simp add: initialize_tracking_def np_zeros_def example_opened_def WSITrackingViewer_def
        Let_def)

section \<open>Marked cells stay inside the grid\<close>

lemma py_int_mono: "0 \<le> x \<Longrightarrow> x \<le> y \<Longrightarrow> py_int x \<le> py_int y"
  by (simp add: py_int_def floor_mono)

lemma py_int_le_int: "0 \<le> x \<Longrightarrow> x \<le> real_of_int n \<Longrightarrow> py_int x \<le> n"
  by (simp add: py_int_def floor_le_iff)

lemma py_slice_exact:
  "0 \<le> a \<Longrightarrow> a \<le> b \<Longrightarrow> b \<le> n - 1 \<Longrightarrow> py_slice n a (b + 1) = (nat a, nat (b + 1))"
  by (simp add: py_slice_def py_slice_bound_def)

lemma axis_in_grid:
  fixes off :: real and ext :: real and dim c n x1 x2 :: int
  assumes c: "0 < c" and lo: "0 \<le> off" and hi: "off \<le> real_of_int dim" and e: "0 \<le> ext"
      and n: "n = dim div c + 1"
  shows "0 \<le> max 0 (py_int off div c) \<and>
         max 0 (py_int off div c) \<le> min (n - 1) (py_int (off + ext) div c) \<and>
         min (n - 1) (py_int (off + ext) div c) \<le> n - 1"
proof -
  have x1: "0 \<le> py_int off" using lo by (rule py_int_nonneg)
  have x1d: "py_int off \<le> dim" using lo hi by (rule py_int_le_int)
  have x12: "py_int off \<le> py_int (off + ext)" using lo e by (intro py_int_mono) simp_all
  have g1: "0 \<le> py_int off div c" using x1 c by (simp add: pos_imp_zdiv_nonneg_iff)
  have g1n: "py_int off div c \<le> dim div c" using x1d c by (rule zdiv_mono1)
  have g12: "py_int off div c \<le> py_int (off + ext) div c" using x12 c by (rule zdiv_mono1)
  show ?thesis using g1 g1n g12 n by simp
qed

text \<open>
  C10. Take a state with an image loaded (positive width, non-negative height), a positive
  zoom and a positive tracking cell size, and an array of the shape that
  \<^verbatim>\<open>initialize_tracking\<close> allocates for that image. In the state that the clamp of
  \<^verbatim>\<open>update_view\<close> leaves, which is the state \<^verbatim>\<open>mark_visited\<close> runs in, the cell
  indices that \<^verbatim>\<open>mark_visited\<close> computes satisfy
  \<open>0 \<le> grid_x1 \<le> grid_x2 \<le> columns - 1\<close> and \<open>0 \<le> grid_y1 \<le> grid_y2 \<le> rows - 1\<close>,
  so the two slices of the assignment are exactly \<open>grid_y1 .. grid_y2\<close> and
  \<open>grid_x1 .. grid_x2\<close>: no bound is cut to the array and none counts from its end.
\<close>

theorem visit_rect_in_grid:
  assumes "0 < fst (slide_dimensions s)" and "0 \<le> snd (slide_dimensions s)"
      and "0 < zoom s" and "0 < grid_cell_size s"
      and "shape a = (snd (slide_dimensions s) div grid_cell_size s + 1,
                      fst (slide_dimensions s) div grid_cell_size s + 1)"
  shows
    "(case visit_rect cv (fst (clamp_view cv s)) a of
        (grid_x1, grid_y1, grid_x2, grid_y2) \<Rightarrow>
          0 \<le> grid_x1 \<and> grid_x1 \<le> grid_x2 \<and> grid_x2 \<le> snd (shape a) - 1 \<and>
          0 \<le> grid_y1 \<and> grid_y1 \<le> grid_y2 \<and> grid_y2 \<le> fst (shape a) - 1 \<and>
          py_slice (fst (shape a)) grid_y1 (grid_y2 + 1) = (nat grid_y1, nat (grid_y2 + 1)) \<and>
          py_slice (snd (shape a)) grid_x1 (grid_x2 + 1) = (nat grid_x1, nat (grid_x2 + 1)))"
proof -
  let ?s1 = "fst (clamp_view cv s)"
  let ?W = "fst (slide_dimensions s)" and ?H = "snd (slide_dimensions s)"
  let ?c = "grid_cell_size s"
  have w: "0 \<le> ?W" using assms(1) by simp
  note b = clamp_view_bounds[OF assms(3) w assms(2), of cv]
  have ox: "0 \<le> offset_x ?s1" "offset_x ?s1 \<le> real_of_int ?W" using b(1,5,6) by linarith+
  have oy: "0 \<le> offset_y ?s1" "offset_y ?s1 \<le> real_of_int ?H" using b(3,7,8) by linarith+
  have z: "zoom ?s1 = zoom s" by (rule clamp_view_fields)
  have cs: "grid_cell_size ?s1 = grid_cell_size s"
    by (subst clamp_view_state) simp
  have ew: "0 \<le> real_of_int (max (fst cv) 1) / zoom s" using assms(3) by simp
  have eh: "0 \<le> real_of_int (max (snd cv) 1) / zoom s" using assms(3) by simp
  have nx: "snd (shape a) = ?W div ?c + 1" and ny: "fst (shape a) = ?H div ?c + 1"
    using assms(5) by simp_all
  note ax = axis_in_grid[OF assms(4) ox ew nx]
  note ay = axis_in_grid[OF assms(4) oy eh ny]
  have v: "visit_rect cv ?s1 a =
     (max 0 (py_int (offset_x ?s1) div ?c),
      max 0 (py_int (offset_y ?s1) div ?c),
      min (snd (shape a) - 1) (py_int (offset_x ?s1 + real_of_int (max (fst cv) 1) / zoom s) div ?c),
      min (fst (shape a) - 1) (py_int (offset_y ?s1 + real_of_int (max (snd cv) 1) / zoom s) div ?c))"
    by (simp add: visit_rect_def Let_def z cs)
  show ?thesis
    unfolding v prod.case
    using ax ay py_slice_exact[of "max 0 (py_int (offset_x ?s1) div ?c)"
        "min (snd (shape a) - 1) (py_int (offset_x ?s1 + real_of_int (max (fst cv) 1) / zoom s) div ?c)"
        "snd (shape a)"]
      py_slice_exact[of "max 0 (py_int (offset_y ?s1) div ?c)"
        "min (fst (shape a) - 1) (py_int (offset_y ?s1 + real_of_int (max (snd cv) 1) / zoom s) div ?c)"
        "fst (shape a)"]
    by blast
qed

text \<open>
  Witness for C10: the 300 by 200 image at zoom 10 with the offset (250, 150) on a canvas
  of 800 by 600. The clamp moves the offset to (220, 140); the view ends on the image's
  right and lower edge, and the cells are columns 2 to 3 and rows 1 to 2 of the 3 by 4
  array.
\<close>

theorem visit_rect_in_grid_witness:
  "0 < fst (slide_dimensions example_flat_zoomed) \<and>
   0 \<le> snd (slide_dimensions example_flat_zoomed) \<and>
   0 < zoom example_flat_zoomed \<and> 0 < grid_cell_size example_flat_zoomed \<and>
   shape \<lparr>shape = (3, 4), cells = replicate 3 (replicate 4 False)\<rparr> =
     (snd (slide_dimensions example_flat_zoomed) div grid_cell_size example_flat_zoomed + 1,
      fst (slide_dimensions example_flat_zoomed) div grid_cell_size example_flat_zoomed + 1) \<and>
   visit_rect (800, 600) (fst (clamp_view (800, 600) example_flat_zoomed))
     \<lparr>shape = (3, 4), cells = replicate 3 (replicate 4 False)\<rparr> = (2, 1, 3, 2) \<and>
   (case visit_rect (800, 600) (fst (clamp_view (800, 600) example_flat_zoomed))
           \<lparr>shape = (3, 4), cells = replicate 3 (replicate 4 False)\<rparr> of
      (grid_x1, grid_y1, grid_x2, grid_y2) \<Rightarrow>
        0 \<le> grid_x1 \<and> grid_x1 \<le> grid_x2 \<and> grid_x2 \<le> 3 \<and>
        0 \<le> grid_y1 \<and> grid_y1 \<le> grid_y2 \<and> grid_y2 \<le> 2)"
proof -
  let ?a = "\<lparr>shape = (3, 4), cells = replicate 3 (replicate 4 False)\<rparr>"
  have h: "0 < fst (slide_dimensions example_flat_zoomed)"
      "0 \<le> snd (slide_dimensions example_flat_zoomed)"
      "0 < zoom example_flat_zoomed" "0 < grid_cell_size example_flat_zoomed"
      "shape ?a =
         (snd (slide_dimensions example_flat_zoomed) div grid_cell_size example_flat_zoomed + 1,
          fst (slide_dimensions example_flat_zoomed) div grid_cell_size example_flat_zoomed + 1)"
    by (simp_all add: example_flat_zoomed_def example_flat_def WSITrackingViewer_def)
  have v: "visit_rect (800, 600) (fst (clamp_view (800, 600) example_flat_zoomed)) ?a = (2, 1, 3, 2)"
    by (simp add: visit_rect_def clamp_view_def Let_def py_int_def example_flat_zoomed_def
          example_flat_def WSITrackingViewer_def)
  have r: "case visit_rect (800, 600) (fst (clamp_view (800, 600) example_flat_zoomed)) ?a of
      (grid_x1, grid_y1, grid_x2, grid_y2) \<Rightarrow>
        0 \<le> grid_x1 \<and> grid_x1 \<le> grid_x2 \<and> grid_x2 \<le> 3 \<and>
        0 \<le> grid_y1 \<and> grid_y1 \<le> grid_y2 \<and> grid_y2 \<le> 2"
    using visit_rect_in_grid[OF h, of "(800, 600)"] by (simp add: case_prod_beta)
  from h v r show ?thesis by blast
qed

section \<open>A load that fails after an image was open\<close>

text \<open>
  The first load of \<^verbatim>\<open>photo.png\<close> ends in the states named above. A load of a file
  that no decoder opens changes \<^verbatim>\<open>slide\<close>, \<^verbatim>\<open>image\<close> and
  \<^verbatim>\<open>use_openslide\<close> and nothing else, whatever the state was.
\<close>

lemma load_photo_grid:
  "load_image_grid example_decoders (800, 600) ''photo.png'' WholeSlideImageViewer =
     (example_loaded_grid, Shown Image_loaded)"
  by (simp add: load_image_grid_def open_source_def endswith_def py_lower_def wsi_extensions_def
        example_decoders_def update_info_grid_def reset_grid_def update_view_grid_def
        clamp_view_def read_region_def finish_view_grid_def draw_grid_def py_mod_def
        line_loop.simps label_loop.simps example_loaded_grid_def
        WholeSlideImageViewer_def py_int_def Let_def)

lemma load_photo_track:
  "load_image_track example_decoders (800, 600) ''photo.png'' WSITrackingViewer =
     (example_loaded_track, Shown Image_loaded)"
  by (simp add: load_image_track_def open_source_def endswith_def py_lower_def wsi_extensions_def
        example_decoders_def initialize_tracking_def np_zeros_def update_info_track_def
        reset_track_def update_view_track_def clamp_view_def mark_visited_def
        get_tracking_level_def py_min_key_def visit_rect_def set_true_def py_slice_def
        py_slice_bound_def read_region_def update_map_def example_loaded_track_def
        WSITrackingViewer_def py_int_def Let_def enumerate_eq_zip eval_nat_numeral fun_eq_iff)

lemma open_missing:
  "open_source example_decoders ''missing.png'' s =
     (s\<lparr>slide := None, image_pil := None, use_openslide := False\<rparr>, Some OSError)"
  by (simp add: open_source_def endswith_def py_lower_def wsi_extensions_def
        example_decoders_def Let_def)

lemma load_missing_grid:
  "load_image_grid example_decoders cv ''missing.png'' s =
     (s\<lparr>slide := None, image_pil := None, use_openslide := False\<rparr>,
      Shown (Could_not_load OSError))"
  by (simp add: load_image_grid_def open_missing)

lemma load_missing_track:
  "load_image_track example_decoders cv ''missing.png'' s =
     (s\<lparr>slide := None, image_pil := None, use_openslide := False\<rparr>,
      Shown (Could_not_load OSError))"
  by (simp add: load_image_track_def open_missing)

lemma refresh_after_failure_grid:
  "zoom_in_grid (800, 600)
     (example_loaded_grid\<lparr>slide := None, image_pil := None, use_openslide := False\<rparr>) =
   (example_loaded_grid\<lparr>slide := None, image_pil := None, use_openslide := False,
      zoom := 3 / 2\<rparr>, Raised AttributeError)"
  by (simp add: zoom_in_grid_def update_view_grid_def clamp_view_def read_region_def
        example_loaded_grid_def WholeSlideImageViewer_def py_int_def Let_def)

lemma refresh_after_failure_track:
  "snd (zoom_in_track (800, 600)
     (example_loaded_track\<lparr>slide := None, image_pil := None, use_openslide := False\<rparr>)) =
   Raised AttributeError"
  by (simp add: zoom_in_track_def update_view_track_def clamp_view_def mark_visited_def
        get_tracking_level_def py_min_key_def visit_rect_def set_true_def py_slice_def
        py_slice_bound_def read_region_def example_loaded_track_def
        WSITrackingViewer_def py_int_def Let_def enumerate_eq_zip eval_nat_numeral)

text \<open>
  C8, evaluated on the code. \<^verbatim>\<open>photo.png\<close> is loaded into the fresh viewer, then
  \<^verbatim>\<open>missing.png\<close>, which no decoder opens. The second load shows the error box and
  leaves \<^verbatim>\<open>slide\<close> and \<^verbatim>\<open>image\<close> empty, but \<^verbatim>\<open>slide_dimensions\<close>
  still holds (300, 200): the guard \<^verbatim>\<open>if not self.slide_dimensions[0]\<close>, by which
  every handler recognises the state without an image, does not hold, and the next zoom-in
  raises \<^verbatim>\<open>AttributeError\<close> in \<^verbatim>\<open>read_region\<close>, where in the fresh viewer it
  returns and changes nothing. The same in both viewers.
\<close>

theorem load_image_failure_keeps_dimensions:
  "load_image_track example_decoders (800, 600) ''photo.png'' WSITrackingViewer =
     (example_loaded_track, Shown Image_loaded) \<and>
   load_image_track example_decoders (800, 600) ''missing.png'' example_loaded_track =
     (example_loaded_track\<lparr>slide := None, image_pil := None, use_openslide := False\<rparr>,
      Shown (Could_not_load OSError)) \<and>
   slide_dimensions
     (example_loaded_track\<lparr>slide := None, image_pil := None, use_openslide := False\<rparr>) =
     (300, 200) \<and>
   snd (zoom_in_track (800, 600)
     (example_loaded_track\<lparr>slide := None, image_pil := None, use_openslide := False\<rparr>)) =
     Raised AttributeError \<and>
   zoom_in_track (800, 600) WSITrackingViewer = (WSITrackingViewer, Done) \<and>
   load_image_grid example_decoders (800, 600) ''photo.png'' WholeSlideImageViewer =
     (example_loaded_grid, Shown Image_loaded) \<and>
   load_image_grid example_decoders (800, 600) ''missing.png'' example_loaded_grid =
     (example_loaded_grid\<lparr>slide := None, image_pil := None, use_openslide := False\<rparr>,
      Shown (Could_not_load OSError)) \<and>
   slide_dimensions
     (example_loaded_grid\<lparr>slide := None, image_pil := None, use_openslide := False\<rparr>) =
     (300, 200) \<and>
   snd (zoom_in_grid (800, 600)
     (example_loaded_grid\<lparr>slide := None, image_pil := None, use_openslide := False\<rparr>)) =
     Raised AttributeError \<and>
   zoom_in_grid (800, 600) WholeSlideImageViewer = (WholeSlideImageViewer, Done)"
proof -
  have dt: "slide_dimensions
     (example_loaded_track\<lparr>slide := None, image_pil := None, use_openslide := False\<rparr>) =
     (300, 200)"
    by (simp add: example_loaded_track_def WSITrackingViewer_def)
  have dg: "slide_dimensions
     (example_loaded_grid\<lparr>slide := None, image_pil := None, use_openslide := False\<rparr>) =
     (300, 200)"
    by (simp add: example_loaded_grid_def WholeSlideImageViewer_def)
  have nt: "zoom_in_track (800, 600) WSITrackingViewer = (WSITrackingViewer, Done)"
    by (simp add: zoom_in_track_def WSITrackingViewer_def)
  have ng: "zoom_in_grid (800, 600) WholeSlideImageViewer = (WholeSlideImageViewer, Done)"
    by (simp add: zoom_in_grid_def WholeSlideImageViewer_def)
  have rg: "snd (zoom_in_grid (800, 600)
     (example_loaded_grid\<lparr>slide := None, image_pil := None, use_openslide := False\<rparr>)) =
     Raised AttributeError"
    by (simp only: refresh_after_failure_grid snd_conv)
  show ?thesis
    using load_photo_track load_missing_track[of "(800, 600)" example_loaded_track] dt
      refresh_after_failure_track nt
      load_photo_grid load_missing_grid[of "(800, 600)" example_loaded_grid] dg rg ng
    by blast
qed

end
